theory Spec2Isabelle
  imports Complex_Main "HOL-Library.Multiset"
begin

section \<open>Values: strings, floats, missing values and exceptions\<close>

text \<open>
  Shallow embedding of \<^verbatim>\<open>data_preprocess.py\<close>.

  A Python \<^verbatim>\<open>str\<close> is a \<open>string\<close> whose characters are the code points
  0..255 (so the sign U+00B1 is the one character \<open>CHR 0xB1\<close>).
  A raw field is a \<open>string option\<close>: \<open>None\<close> is the null/NaN cell that
  \<^verbatim>\<open>pd.isna\<close> detects, \<open>Some s\<close> is the text \<^verbatim>\<open>str(x)\<close> of any other cell.

  A Python float is modelled by its exact value: \<open>Fin q\<close> for a rational \<open>q\<close>, or one of
  the two infinities; rounding and overflow are not modelled. NaN, the missing-value
  sentinel \<^verbatim>\<open>np.nan\<close>, is \<open>None\<close> of type \<open>cell\<close>.
  An exception that leaves a function is \<open>Inl\<close> of the result.
\<close>

datatype py_error = ValueError | IndexError | ZeroDivisionError | KeyError

datatype fl = NegInf | Fin rat | PosInf

type_synonym cell = "fl option"

instantiation fl :: linorder
begin

fun less_eq_fl :: "fl \<Rightarrow> fl \<Rightarrow> bool" where
  "less_eq_fl NegInf _ = True"
| "less_eq_fl (Fin a) NegInf = False"
| "less_eq_fl (Fin a) (Fin b) = (a \<le> b)"
| "less_eq_fl (Fin a) PosInf = True"
| "less_eq_fl PosInf PosInf = True"
| "less_eq_fl PosInf _ = False"

definition less_fl :: "fl \<Rightarrow> fl \<Rightarrow> bool" where
  "less_fl x y = (x \<le> y \<and> \<not> y \<le> x)"

instance
proof
  fix x y z :: fl
  show "(x < y) = (x \<le> y \<and> \<not> y \<le> x)" by (simp add: less_fl_def)
  show "x \<le> x" by (cases x) simp_all
  show "x \<le> y \<Longrightarrow> y \<le> z \<Longrightarrow> x \<le> z" by (cases x; cases y; cases z) simp_all
  show "x \<le> y \<Longrightarrow> y \<le> x \<Longrightarrow> x = y" by (cases x; cases y) simp_all
  show "x \<le> y \<or> y \<le> x" by (cases x; cases y) auto
qed

end

definition err_bind :: "py_error + 'a \<Rightarrow> ('a \<Rightarrow> py_error + 'b) \<Rightarrow> py_error + 'b" where
  "err_bind m f = (case m of Inl e \<Rightarrow> Inl e | Inr v \<Rightarrow> f v)"

subsection \<open>Character classes and string methods\<close>

definition is_digit :: "char \<Rightarrow> bool" where
  \<comment> \<open>\<^verbatim>\<open>\d\<close>: among the code points 0..255 only the ASCII digits are decimal digits.\<close>
  "is_digit c = (c \<in> set ''0123456789'')"

definition is_numch :: "char \<Rightarrow> bool" where
  \<comment> \<open>the class \<^verbatim>\<open>[\d.]\<close>\<close>
  "is_numch c = (is_digit c \<or> c = CHR ''.'')"

definition is_space :: "char \<Rightarrow> bool" where
  \<comment> \<open>\<^verbatim>\<open>\s\<close> and the characters \<^verbatim>\<open>str.strip()\<close> removes, among the code points 0..255\<close>
  "is_space c = (c \<in> set [CHR 0x09, CHR 0x0A, CHR 0x0B, CHR 0x0C, CHR 0x0D,
                            CHR 0x1C, CHR 0x1D, CHR 0x1E, CHR 0x1F, CHR 0x20,
                            CHR 0x85, CHR 0xA0])"

definition lower_char :: "char \<Rightarrow> char" where
  \<comment> \<open>\<^verbatim>\<open>str.lower()\<close> on one of the code points 0..255: A..Z and U+00C0..U+00DE (without
      the multiplication sign U+00D7) move 32 code points up, which sets bit 5\<close>
  "lower_char c =
     (let n = (of_char c :: nat)
      in if (65 \<le> n \<and> n \<le> 90) \<or> (192 \<le> n \<and> n \<le> 222 \<and> n \<noteq> 215)
         then (case c of Char b0 b1 b2 b3 b4 b5 b6 b7 \<Rightarrow> Char b0 b1 b2 b3 b4 True b6 b7)
         else c)"

definition str_lower :: "string \<Rightarrow> string" where
  "str_lower s = map lower_char s"

definition str_strip :: "string \<Rightarrow> string" where
  "str_strip s = rev (dropWhile is_space (rev (dropWhile is_space s)))"

definition remove_char :: "char \<Rightarrow> string \<Rightarrow> string" where
  \<comment> \<open>\<^verbatim>\<open>s.replace(c, '')\<close> for a single character \<open>c\<close>\<close>
  "remove_char c s = filter (\<lambda>x. x \<noteq> c) s"

fun remove_cm :: "string \<Rightarrow> string" where
  \<comment> \<open>\<^verbatim>\<open>s.replace('cm', '')\<close>: the occurrences are removed from left to right\<close>
  "remove_cm (a # b # s) =
     (if a = CHR ''c'' \<and> b = CHR ''m'' then remove_cm s else a # remove_cm (b # s))"
| "remove_cm s = s"

fun starts_with :: "string \<Rightarrow> string \<Rightarrow> bool" where
  "starts_with [] s = True"
| "starts_with (p # ps) [] = False"
| "starts_with (p # ps) (c # cs) = (p = c \<and> starts_with ps cs)"

fun contains :: "string \<Rightarrow> string \<Rightarrow> bool" where
  \<comment> \<open>\<^verbatim>\<open>sub in s\<close>\<close>
  "contains sub [] = (sub = [])"
| "contains sub (c # cs) = (starts_with sub (c # cs) \<or> contains sub cs)"

definition after_last_slash :: "string \<Rightarrow> string" where
  \<comment> \<open>\<^verbatim>\<open>s.split('/')[-1]\<close>\<close>
  "after_last_slash s = rev (takeWhile (\<lambda>c. c \<noteq> CHR ''/'') (rev s))"

subsection \<open>The regular expressions\<close>

text \<open>
  Each pattern of the source is translated into the scan that Python's \<^verbatim>\<open>re\<close> performs
  for it. The classes \<^verbatim>\<open>[\d.]\<close>, \<^verbatim>\<open>\s\<close> and the literals that follow them in the
  patterns are pairwise disjoint, so a greedy repetition never gives characters back:
  a match that starts inside a run always extends to the end of that run.
\<close>

definition search_num :: "string \<Rightarrow> string option" where
  \<comment> \<open>\<^verbatim>\<open>re.search(r'([\d.]+)', s)\<close>: group 1 of the leftmost match\<close>
  "search_num s =
     (case dropWhile (\<lambda>c. \<not> is_numch c) s of
        [] \<Rightarrow> None
      | c # r \<Rightarrow> Some (takeWhile is_numch (c # r)))"

function findall_run :: "(char \<Rightarrow> bool) \<Rightarrow> string \<Rightarrow> string list" where
  \<comment> \<open>\<^verbatim>\<open>re.findall\<close> of one or more characters of a class \<open>P\<close>: the maximal runs,
      from left to right\<close>
  "findall_run P [] = []"
| "findall_run P (c # r) =
     (if P c then (c # takeWhile P r) # findall_run P (dropWhile P r)
      else findall_run P r)"
  by pat_completeness auto
termination
proof (relation "measure (\<lambda>(P, s). length s)")
  show "wf (measure (\<lambda>(P, s). length s))" by simp
next
  fix P :: "char \<Rightarrow> bool" and c :: char and r :: string
  show "((P, dropWhile P r), (P, c # r)) \<in> measure (\<lambda>(P, s). length s)"
    using length_dropWhile_le [of P r] by simp
  show "((P, r), (P, c # r)) \<in> measure (\<lambda>(P, s). length s)" by simp
qed

definition findall_digits :: "string \<Rightarrow> string list" where
  \<comment> \<open>\<^verbatim>\<open>re.findall(r'(\d+)', s)\<close>\<close>
  "findall_digits s = findall_run is_digit s"

definition findall_numch :: "string \<Rightarrow> string list" where
  \<comment> \<open>\<^verbatim>\<open>re.findall(r'[\d.]+', s)\<close>\<close>
  "findall_numch s = findall_run is_numch s"

function findall_decimal :: "string \<Rightarrow> string list" where
  \<comment> \<open>\<^verbatim>\<open>re.findall(r'\d+\.\d+|\d+', s)\<close>: at a digit, the first alternative
      (digits, a dot, digits) is tried before the second (digits)\<close>
  "findall_decimal [] = []"
| "findall_decimal (c # r) =
     (if is_digit c
      then (let ip = c # takeWhile is_digit r
            in case dropWhile is_digit r of
                 [] \<Rightarrow> [ip]
               | d # r2 \<Rightarrow>
                   if d = CHR ''.'' \<and> takeWhile is_digit r2 \<noteq> []
                   then (ip @ d # takeWhile is_digit r2) # findall_decimal (dropWhile is_digit r2)
                   else ip # findall_decimal (d # r2))
      else findall_decimal r)"
  by pat_completeness auto
termination
proof (relation "measure length")
  show "wf (measure length)" by simp
next
  fix c d :: char and r r2 :: string
  assume b: "dropWhile is_digit r = d # r2"
  have l2: "length (d # r2) \<le> length r"
    using length_dropWhile_le [of is_digit r] b by simp
  have l3: "length (dropWhile is_digit r2) \<le> length r2" by (rule length_dropWhile_le)
  show "(dropWhile is_digit r2, c # r) \<in> measure length" using l2 l3 by simp
  show "(d # r2, c # r) \<in> measure length" using l2 by simp
next
  fix c :: char and r :: string
  show "(r, c # r) \<in> measure length" by simp
qed

function search_num_m :: "string \<Rightarrow> string option" where
  \<comment> \<open>\<^verbatim>\<open>re.search(r'([\d.]+)m', s)\<close>: the first run of digits and dots that an
      \<^verbatim>\<open>m\<close> follows immediately\<close>
  "search_num_m [] = None"
| "search_num_m (c # r) =
     (if is_numch c
      then (case dropWhile is_numch r of
              [] \<Rightarrow> None
            | d # r2 \<Rightarrow> if d = CHR ''m'' then Some (c # takeWhile is_numch r)
                        else search_num_m (d # r2))
      else search_num_m r)"
  by pat_completeness auto
termination
proof (relation "measure length")
  show "wf (measure length)" by simp
next
  fix c d :: char and r r2 :: string
  assume b: "dropWhile is_numch r = d # r2"
  show "(d # r2, c # r) \<in> measure length"
    using length_dropWhile_le [of is_numch r] b by simp
next
  fix c :: char and r :: string
  show "(r, c # r) \<in> measure length" by simp
qed

definition is_sign :: "char \<Rightarrow> bool" where
  \<comment> \<open>the class \<^verbatim>\<open>[\u00b1+-]\<close>\<close>
  "is_sign c = (c \<in> set [CHR 0xB1, CHR ''+'', CHR ''-''])"

definition match_ev :: "string \<Rightarrow> string option" where
  \<comment> \<open>\<^verbatim>\<open>[\u00b1+-]\s*([\d.]+)\s*EV\<close> matched at the start of \<open>s\<close>: group 1\<close>
  "match_ev s =
     (case s of
        [] \<Rightarrow> None
      | c # r \<Rightarrow>
          if is_sign c
          then (let r1 = dropWhile is_space r;
                    g = takeWhile is_numch r1;
                    r2 = dropWhile is_space (dropWhile is_numch r1)
                in if g \<noteq> [] \<and> starts_with ''EV'' r2 then Some g else None)
          else None)"

fun search_ev :: "string \<Rightarrow> string option" where
  \<comment> \<open>\<^verbatim>\<open>re.search(r'[\u00b1+-]\s*([\d.]+)\s*EV', s)\<close>: the leftmost position that matches\<close>
  "search_ev [] = None"
| "search_ev (c # cs) =
     (case match_ev (c # cs) of Some g \<Rightarrow> Some g | None \<Rightarrow> search_ev cs)"

subsection \<open>Conversion of a matched text to a float\<close>

definition digit_val :: "char \<Rightarrow> nat" where
  "digit_val c = of_char c - 48"

definition digits_val :: "string \<Rightarrow> nat" where
  "digits_val ds = foldl (\<lambda>a c. 10 * a + digit_val c) 0 ds"

definition float_str :: "string \<Rightarrow> py_error + fl" where
  \<comment> \<open>\<^verbatim>\<open>float(t)\<close> on the texts the patterns above can capture (digits and dots):
      the text must hold at most one dot and at least one digit, otherwise ValueError\<close>
  "float_str t =
     (let ip = takeWhile is_digit t; rest = dropWhile is_digit t
      in case rest of
           [] \<Rightarrow> if ip = [] then Inl ValueError else Inr (Fin (of_nat (digits_val ip)))
         | d # fp \<Rightarrow>
             if d = CHR ''.'' \<and> list_all is_digit fp \<and> (ip \<noteq> [] \<or> fp \<noteq> [])
             then Inr (Fin (of_nat (digits_val ip) + of_nat (digits_val fp) / 10 ^ length fp))
             else Inl ValueError)"

definition decimal_value :: "string \<Rightarrow> rat" where
  \<comment> \<open>the number that a text of digits with at most one dot denotes\<close>
  "decimal_value t =
     (let ip = takeWhile is_digit t; fp = drop 1 (dropWhile is_digit t)
      in of_nat (digits_val ip) + of_nat (digits_val fp) / 10 ^ length fp)"

definition well_formed_decimal :: "string \<Rightarrow> bool" where
  \<comment> \<open>at most one dot and at least one digit\<close>
  "well_formed_decimal t =
     (length (filter (\<lambda>c. c = CHR ''.'') t) \<le> 1 \<and> list_ex is_digit t)"

fun floats :: "string list \<Rightarrow> py_error + fl list" where
  \<comment> \<open>\<^verbatim>\<open>[float(n) for n in ts]\<close>: the first failing conversion raises\<close>
  "floats [] = Inr []"
| "floats (t # ts) =
     err_bind (float_str t) (\<lambda>v. err_bind (floats ts) (\<lambda>vs. Inr (v # vs)))"

definition to_cell :: "py_error + fl \<Rightarrow> py_error + cell" where
  "to_cell m = err_bind m (\<lambda>v. Inr (Some v))"

definition py_reciprocal :: "fl \<Rightarrow> py_error + fl" where
  \<comment> \<open>\<^verbatim>\<open>1.0 / d\<close> on Python floats: a zero divisor raises, an infinite one gives zero\<close>
  "py_reciprocal d =
     (case d of
        Fin y \<Rightarrow> if y = 0 then Inl ZeroDivisionError else Inr (Fin (1 / y))
      | _ \<Rightarrow> Inr (Fin 0))"

section \<open>The field normalizers\<close>

definition clean_weight :: "string option \<Rightarrow> py_error + cell" where
  "clean_weight weight_str =
     (case weight_str of
        None \<Rightarrow> Inr None
      | Some w \<Rightarrow>
          (case search_num (str_strip (remove_char (CHR '','') (str_lower w))) of
             None \<Rightarrow> Inr None
           | Some g \<Rightarrow> to_cell (float_str g)))"

definition clean_max_iso :: "string option \<Rightarrow> py_error + cell" where
  "clean_max_iso iso_str =
     (case iso_str of
        None \<Rightarrow> Inr None
      | Some i \<Rightarrow>
          (let numbers = findall_digits (str_strip (remove_char (CHR '','') i))
           in if numbers \<noteq> [] then to_cell (float_str (last numbers)) else Inr None))"

definition clean_aperture_f :: "string option \<Rightarrow> py_error + cell" where
  "clean_aperture_f aperture_str =
     (case aperture_str of
        None \<Rightarrow> Inr None
      | Some a \<Rightarrow>
          err_bind (floats (findall_numch a))
            (\<lambda>numbers. if numbers \<noteq> [] then Inr (Some (Min (set numbers))) else Inr None))"

definition shutter_fraction :: "string \<Rightarrow> py_error + fl" where
  \<comment> \<open>the body of the \<^verbatim>\<open>try\<close>:
      \<^verbatim>\<open>1.0 / float(re.findall(r'(\d+)', parts[-1])[0])\<close>\<close>
  "shutter_fraction s =
     (case findall_digits (after_last_slash s) of
        [] \<Rightarrow> Inl IndexError
      | g # _ \<Rightarrow> err_bind (float_str g) py_reciprocal)"

definition clean_shutter_speed :: "string option \<Rightarrow> py_error + cell" where
  "clean_shutter_speed shutter_str =
     (case shutter_str of
        None \<Rightarrow> Inr None
      | Some x \<Rightarrow>
          (let s = str_strip (str_lower x)
           in if contains ''/'' s \<and> contains ''sec'' s
              then (case shutter_fraction s of
                      Inr v \<Rightarrow> Inr (Some v)
                    | Inl _ \<Rightarrow> Inr None)
              else (case search_num s of
                      None \<Rightarrow> Inr None
                    | Some g \<Rightarrow> to_cell (float_str g))))"

definition clean_exposure_range :: "string option \<Rightarrow> py_error + cell" where
  "clean_exposure_range exp_str =
     (case exp_str of
        None \<Rightarrow> Inr None
      | Some e \<Rightarrow>
          (case search_ev e of
             None \<Rightarrow> Inr None
           | Some g \<Rightarrow> to_cell (float_str g)))"

definition clean_screen_res :: "string option \<Rightarrow> py_error + cell" where
  "clean_screen_res res_str =
     (case res_str of
        None \<Rightarrow> Inr None
      | Some r \<Rightarrow>
          (case findall_digits (str_lower (remove_char (CHR '','') r)) of
             [] \<Rightarrow> Inr None
           | g # _ \<Rightarrow> to_cell (float_str g)))"

definition clean_screen_size :: "(string \<Rightarrow> cell) \<Rightarrow> string option \<Rightarrow> py_error + cell" where
  \<comment> \<open>\<open>to_numeric\<close> stands for the library call
      \<^verbatim>\<open>pd.to_numeric(_, errors='coerce')\<close>, which returns NaN instead of raising\<close>
  "clean_screen_size to_numeric size_str =
     (case size_str of
        None \<Rightarrow> Inr None
      | Some z \<Rightarrow> Inr (to_numeric (str_strip (remove_char (CHR 0x22) z))))"

definition times100 :: "fl \<Rightarrow> fl" where
  "times100 v = (case v of Fin q \<Rightarrow> Fin (q * 100) | NegInf \<Rightarrow> NegInf | PosInf \<Rightarrow> PosInf)"

definition clean_focus_range :: "string option \<Rightarrow> py_error + cell" where
  "clean_focus_range focus_str =
     (case focus_str of
        None \<Rightarrow> Inr None
      | Some f \<Rightarrow>
          (let s = str_strip (remove_cm (str_lower f))
           in case search_num_m s of
                Some g \<Rightarrow> err_bind (float_str g) (\<lambda>v. Inr (Some (times100 v)))
              | None \<Rightarrow>
                  (case search_num s of
                     None \<Rightarrow> Inr None
                   | Some g \<Rightarrow> to_cell (float_str g))))"

definition clean_dimensions :: "string option \<Rightarrow> py_error + (cell \<times> cell \<times> cell)" where
  "clean_dimensions dim_str =
     (case dim_str of
        None \<Rightarrow> Inr (None, None, None)
      | Some d \<Rightarrow>
          err_bind (floats (findall_decimal d))
            (\<lambda>numbers. if length numbers \<ge> 3
                        then Inr (Some (numbers ! 0), Some (numbers ! 1), Some (numbers ! 2))
                        else Inr (None, None, None)))"

subsection \<open>The exposure pattern in the words of the specification\<close>


section \<open>The table\<close>

text \<open>
  A DataFrame is a list of column names, in their order, and a list of rows. An input row
  holds the sixteen raw fields that the transform reads; a JSON number is represented by
  its text. The model covers the tables whose column names are distinct and are not
  names that the transform creates; one exception is a column \<^verbatim>\<open>Min_Aperture_F\<close> in the
  input, which the model covers too, because the transform overwrites all its cells
  before it reads any of them. A table read from a
  JSON array has a column only when a record has that key, so a table without rows has
  no columns either, and its first column access raises KeyError.
\<close>

record 'r frame =
  columns :: "string list"
  data :: "'r list"

record raw_camera =
  Weight :: "string option"
  ISO :: "string option"
  Min_shutter_speed :: "string option"
  Max_shutter_speed :: "string option"
  Exposure_Compensation :: "string option"
  Screen_resolution :: "string option"
  Screen_size :: "string option"
  Normal_focus_range :: "string option"
  Macro_focus_range :: "string option"
  Max_aperture :: "string option"
  Dimensions :: "string option"
  Max_video_resolution :: "string option"
  Total_megapixels :: "string option"
  Effective_megapixels :: "string option"
  Megapixels :: "string option"
  Crop_factor :: "string option"

record clean_camera =
  Weight_g :: cell
  Max_ISO :: cell
  Min_Shutter_Speed_Sec :: cell
  Max_Shutter_Speed_Sec :: cell
  Max_Exposure_Comp :: cell
  Screen_Res_Dots :: cell
  Screen_Size_in :: cell
  Normal_Focus_cm :: cell
  Macro_Focus_cm :: cell
  Max_aperture_text :: "string option"
  Min_Aperture_F :: cell
  Dimensions_text :: "string option"
  Dim_L :: cell
  Dim_W :: cell
  Dim_H :: cell
  Max_video_resolution_text :: "string option"
  Supports_4K :: bool
  Total_megapixels_num :: cell
  Effective_megapixels_num :: cell
  Megapixels_num :: cell
  Crop_factor_num :: cell

record scored_camera =
  features :: clean_camera
  Portability_Score :: "rat option"
  Aperture_Value :: cell
  LowLight_Score :: "rat option"
  Video_Score :: "rat option"

subsection \<open>Column access\<close>

definition get_column :: "string list \<Rightarrow> string \<Rightarrow> 'v list \<Rightarrow> py_error + 'v list" where
  \<comment> \<open>\<^verbatim>\<open>df[name]\<close>: KeyError when the table has no such column\<close>
  "get_column hdr name col = (if name \<in> set hdr then Inr col else Inl KeyError)"

fun series_apply :: "('a \<Rightarrow> py_error + 'b) \<Rightarrow> 'a list \<Rightarrow> py_error + 'b list" where
  \<comment> \<open>\<^verbatim>\<open>Series.apply(f)\<close>: the first exception ends the run\<close>
  "series_apply f [] = Inr []"
| "series_apply f (x # xs) =
     err_bind (f x) (\<lambda>y. err_bind (series_apply f xs) (\<lambda>ys. Inr (y # ys)))"

definition apply_column ::
  "string list \<Rightarrow> string \<Rightarrow> ('a \<Rightarrow> py_error + 'b) \<Rightarrow> 'a list \<Rightarrow> py_error + 'b list" where
  \<comment> \<open>\<^verbatim>\<open>df[name].apply(f)\<close>\<close>
  "apply_column hdr name f col = err_bind (get_column hdr name col) (series_apply f)"

definition set_column :: "string \<Rightarrow> string list \<Rightarrow> string list" where
  \<comment> \<open>the column names after \<^verbatim>\<open>df[name] = ...\<close>: a new column goes to the end\<close>
  "set_column name hdr = (if name \<in> set hdr then hdr else hdr @ [name])"

definition renames :: "(string \<times> string) list" where
  "renames =
     [(''Weight'', ''Weight_g''),
      (''ISO'', ''Max_ISO''),
      (''Min. shutter speed'', ''Min_Shutter_Speed_Sec''),
      (''Max. shutter speed'', ''Max_Shutter_Speed_Sec''),
      (''Exposure Compensation'', ''Max_Exposure_Comp''),
      (''Screen resolution'', ''Screen_Res_Dots''),
      (''Screen size'', ''Screen_Size_in''),
      (''Normal focus range'', ''Normal_Focus_cm''),
      (''Macro focus range'', ''Macro_Focus_cm'')]"

definition rename_columns :: "string list \<Rightarrow> string list" where
  \<comment> \<open>\<^verbatim>\<open>df.rename(columns={...}, inplace=True)\<close>\<close>
  "rename_columns hdr = map (\<lambda>c. case map_of renames c of None \<Rightarrow> c | Some c' \<Rightarrow> c') hdr"

subsection \<open>Cell arithmetic and the remaining conversions\<close>

definition supports_4k :: "string option \<Rightarrow> bool" where
  \<comment> \<open>\<^verbatim>\<open>.astype(str).str.contains('3840|4096|4K', case=False, na=False)\<close>: a missing cell
      becomes the text \<^verbatim>\<open>None\<close> or \<^verbatim>\<open>nan\<close>; neither holds one of the three tokens, and
      \<^verbatim>\<open>nan\<close> stands for both here\<close>
  "supports_4k x =
     (let s = str_lower (case x of None \<Rightarrow> ''nan'' | Some t \<Rightarrow> t)
      in contains ''3840'' s \<or> contains ''4096'' s \<or> contains ''4k'' s)"

definition to_numeric_cell :: "(string \<Rightarrow> cell) \<Rightarrow> string option \<Rightarrow> cell" where
  \<comment> \<open>one cell of \<^verbatim>\<open>pd.to_numeric(df[col], errors='coerce')\<close>\<close>
  "to_numeric_cell to_numeric x = (case x of None \<Rightarrow> None | Some t \<Rightarrow> to_numeric t)"

fun fl_sgn :: "fl \<Rightarrow> int" where
  "fl_sgn NegInf = - 1"
| "fl_sgn PosInf = 1"
| "fl_sgn (Fin q) = (if q < 0 then - 1 else if q = 0 then 0 else 1)"

definition cell_mul :: "cell \<Rightarrow> cell \<Rightarrow> cell" where
  \<comment> \<open>\<^verbatim>\<open>a * b\<close> on float cells: NaN propagates, and zero times infinity is NaN\<close>
  "cell_mul x y =
     (case (x, y) of
        (Some (Fin a), Some (Fin b)) \<Rightarrow> Some (Fin (a * b))
      | (Some a, Some b) \<Rightarrow>
          (let s = fl_sgn a * fl_sgn b
           in if s = 0 then None else if 0 < s then Some PosInf else Some NegInf)
      | _ \<Rightarrow> None)"

definition cell_recip :: "cell \<Rightarrow> cell" where
  \<comment> \<open>\<^verbatim>\<open>1 / x\<close> on a float column: no exception, one over zero is infinity
      (the sign of a zero is not modelled)\<close>
  "cell_recip x =
     (case x of
        None \<Rightarrow> None
      | Some (Fin q) \<Rightarrow> if q = 0 then Some PosInf else Some (Fin (1 / q))
      | Some _ \<Rightarrow> Some (Fin 0))"

subsection \<open>Percentile ranks\<close>

text \<open>
  \<^verbatim>\<open>Series.rank(method='average', ascending, na_option, pct)\<close> is a library function,
  modelled from its documentation. The values are sorted in the chosen direction; with
  \<^verbatim>\<open>na_option='top'\<close> the missing values come first and so get the lowest ranks, with
  \<^verbatim>\<open>'bottom'\<close> they come last and get the highest ranks, with \<^verbatim>\<open>'keep'\<close> they get no
  rank. Equal values (and the missing values among themselves) share the average of
  their positions, which for a value with \<open>b\<close> positions before it and \<open>t\<close> ties is
  \<open>b + (t + 1) / 2\<close>. With \<^verbatim>\<open>pct=True\<close> the rank is divided by the number of ranked
  values.
\<close>

datatype na_option = na_keep | na_top | na_bottom

definition count_na :: "'a option list \<Rightarrow> nat" where
  "count_na col = length (filter (\<lambda>w. w = None) col)"

definition count_before :: "bool \<Rightarrow> 'a::linorder option list \<Rightarrow> 'a \<Rightarrow> nat" where
  \<comment> \<open>the present values sorted strictly before \<open>x\<close>\<close>
  "count_before ascending col x =
     length (filter (\<lambda>w. case w of None \<Rightarrow> False
                                   | Some y \<Rightarrow> if ascending then y < x else x < y) col)"

definition count_ties :: "'a option list \<Rightarrow> 'a \<Rightarrow> nat" where
  "count_ties col x = length (filter (\<lambda>w. w = Some x) col)"

definition average_rank ::
  "bool \<Rightarrow> na_option \<Rightarrow> 'a::linorder option list \<Rightarrow> 'a option \<Rightarrow> rat option" where
  "average_rank ascending na col v =
     (case v of
        None \<Rightarrow>
          (case na of
             na_keep \<Rightarrow> None
           | na_top \<Rightarrow> Some ((of_nat (count_na col) + 1) / 2)
           | na_bottom \<Rightarrow>
               Some (of_nat (length col - count_na col) + (of_nat (count_na col) + 1) / 2))
      | Some x \<Rightarrow>
          Some (of_nat (if na = na_top then count_na col else 0)
                + of_nat (count_before ascending col x)
                + (of_nat (count_ties col x) + 1) / 2))"

definition ranked_count :: "na_option \<Rightarrow> 'a option list \<Rightarrow> nat" where
  "ranked_count na col = (if na = na_keep then length col - count_na col else length col)"

definition series_rank ::
  "bool \<Rightarrow> na_option \<Rightarrow> bool \<Rightarrow> 'a::linorder option list \<Rightarrow> rat option list" where
  "series_rank ascending na pct col =
     map (\<lambda>v. map_option (\<lambda>r. if pct then r / of_nat (ranked_count na col) else r)
                 (average_rank ascending na col v)) col"

definition rank_less :: "rat option \<Rightarrow> rat option \<Rightarrow> bool" where
  \<comment> \<open>both ranks are numbers, and the first is strictly below the second\<close>
  "rank_less a b = (case (a, b) of (Some p, Some q) \<Rightarrow> p < q | _ \<Rightarrow> False)"

subsection \<open>Arithmetic on score columns\<close>

definition col_scale :: "rat \<Rightarrow> rat option list \<Rightarrow> rat option list" where
  "col_scale k col = map (map_option (\<lambda>x. x * k)) col"

definition col_add :: "rat option list \<Rightarrow> rat option list \<Rightarrow> rat option list" where
  "col_add a b =
     map (\<lambda>(x, y). case (x, y) of (Some p, Some q) \<Rightarrow> Some (p + q) | _ \<Rightarrow> None) (zip a b)"

definition col_clip :: "rat \<Rightarrow> rat \<Rightarrow> rat option list \<Rightarrow> rat option list" where
  \<comment> \<open>\<^verbatim>\<open>Series.clip(lo, hi)\<close>: NaN stays NaN\<close>
  "col_clip lo hi col = map (map_option (\<lambda>x. min hi (max lo x))) col"

subsection \<open>The three scores\<close>

definition inverse_volume :: "clean_camera \<Rightarrow> cell" where
  "inverse_volume r = cell_recip (cell_mul (cell_mul (Dim_L r) (Dim_W r)) (Dim_H r))"

definition weight_rank :: "clean_camera list \<Rightarrow> rat option list" where
  "weight_rank rows = series_rank False na_bottom True (map Weight_g rows)"

definition volume_rank :: "clean_camera list \<Rightarrow> rat option list" where
  "volume_rank rows = series_rank True na_bottom True (map inverse_volume rows)"

definition Portability_Score_column :: "clean_camera list \<Rightarrow> rat option list" where
  "Portability_Score_column rows =
     col_clip 20 100
       (col_scale 100
          (col_add (col_scale (6 / 10) (weight_rank rows))
                   (col_scale (4 / 10) (volume_rank rows))))"

definition Aperture_Value_column :: "clean_camera list \<Rightarrow> cell list" where
  "Aperture_Value_column rows = map (\<lambda>r. cell_recip (Min_Aperture_F r)) rows"

definition iso_rank :: "clean_camera list \<Rightarrow> rat option list" where
  "iso_rank rows = series_rank True na_top True (map Max_ISO rows)"

definition aperture_rank :: "clean_camera list \<Rightarrow> rat option list" where
  "aperture_rank rows = series_rank True na_top True (Aperture_Value_column rows)"

definition crop_rank :: "clean_camera list \<Rightarrow> rat option list" where
  "crop_rank rows = series_rank False na_top True (map Crop_factor_num rows)"

definition LowLight_Score_column :: "clean_camera list \<Rightarrow> rat option list" where
  "LowLight_Score_column rows =
     col_clip 20 100
       (col_scale 100
          (col_add (col_add (col_scale (5 / 10) (iso_rank rows))
                            (col_scale (3 / 10) (aperture_rank rows)))
                   (col_scale (2 / 10) (crop_rank rows))))"

definition screen_rank :: "clean_camera list \<Rightarrow> rat option list" where
  "screen_rank rows = series_rank True na_top True (map Screen_Size_in rows)"

definition shutter_rank :: "clean_camera list \<Rightarrow> rat option list" where
  "shutter_rank rows = series_rank True na_top True (map Max_Shutter_Speed_Sec rows)"

definition supports_4k_int :: "clean_camera list \<Rightarrow> rat option list" where
  \<comment> \<open>\<^verbatim>\<open>df['Supports_4K'].astype(int)\<close>\<close>
  "supports_4k_int rows = map (\<lambda>r. Some (if Supports_4K r then 1 else 0)) rows"

definition Video_Score_column :: "clean_camera list \<Rightarrow> rat option list" where
  "Video_Score_column rows =
     col_clip 20 100
       (col_scale 100
          (col_add (col_add (col_scale (4 / 10) (supports_4k_int rows))
                            (col_scale (3 / 10) (screen_rank rows)))
                   (col_scale (3 / 10) (shutter_rank rows))))"

definition derive_scores :: "clean_camera list \<Rightarrow> scored_camera list" where
  "derive_scores rows =
     map (\<lambda>i. \<lparr>features = rows ! i,
               Portability_Score = Portability_Score_column rows ! i,
               Aperture_Value = Aperture_Value_column rows ! i,
               LowLight_Score = LowLight_Score_column rows ! i,
               Video_Score = Video_Score_column rows ! i\<rparr>)
         [0..<length rows]"

definition score_names :: "string list" where
  "score_names = [''Portability_Score'', ''Aperture_Value'', ''LowLight_Score'', ''Video_Score'']"

subsection \<open>The column reorderer\<close>

definition index_of :: "string \<Rightarrow> string list \<Rightarrow> py_error + nat" where
  \<comment> \<open>\<^verbatim>\<open>cols.index(name)\<close>\<close>
  "index_of name cols =
     (if name \<in> set cols then Inr (length (takeWhile (\<lambda>c. c \<noteq> name) cols)) else Inl ValueError)"

definition list_insert :: "nat \<Rightarrow> 'a \<Rightarrow> 'a list \<Rightarrow> 'a list" where
  \<comment> \<open>\<^verbatim>\<open>cols.insert(i, x)\<close>: an index beyond the end appends\<close>
  "list_insert i x xs = take i xs @ x # drop i xs"

definition reorder_columns :: "string list \<Rightarrow> py_error + string list" where
  "reorder_columns cols =
     err_bind (index_of ''Max aperture'' cols)
       (\<lambda>aperture_idx.
          if ''Min_Aperture_F'' \<in> set cols
          then Inr (list_insert (aperture_idx + 1) ''Min_Aperture_F''
                      (remove1 ''Min_Aperture_F'' cols))
          else Inr cols)"

subsection \<open>The core transform\<close>

text \<open>
  As in the source, the table is cleaned one column after the other; each step reads
  its column (KeyError when the table has none of that name) and applies the normalizer
  to every cell. The rows of the cleaned table are then read off the columns.
\<close>

definition clean_features ::
  "(string \<Rightarrow> cell) \<Rightarrow> raw_camera frame \<Rightarrow> py_error + clean_camera frame" where
  "clean_features to_numeric df =
    (let h = columns df; rows = data df in
     err_bind (apply_column h ''Weight'' clean_weight (map Weight rows)) (\<lambda>weight.
     err_bind (apply_column h ''ISO'' clean_max_iso (map ISO rows)) (\<lambda>iso.
     err_bind (apply_column h ''Min. shutter speed'' clean_shutter_speed
                 (map Min_shutter_speed rows)) (\<lambda>min_shutter.
     err_bind (apply_column h ''Max. shutter speed'' clean_shutter_speed
                 (map Max_shutter_speed rows)) (\<lambda>max_shutter.
     err_bind (apply_column h ''Exposure Compensation'' clean_exposure_range
                 (map Exposure_Compensation rows)) (\<lambda>exposure.
     err_bind (apply_column h ''Screen resolution'' clean_screen_res
                 (map Screen_resolution rows)) (\<lambda>screen_res.
     err_bind (apply_column h ''Screen size'' (clean_screen_size to_numeric)
                 (map Screen_size rows)) (\<lambda>screen_size.
     err_bind (apply_column h ''Normal focus range'' clean_focus_range
                 (map Normal_focus_range rows)) (\<lambda>normal_focus.
     err_bind (apply_column h ''Macro focus range'' clean_focus_range
                 (map Macro_focus_range rows)) (\<lambda>macro_focus.
     err_bind (apply_column h ''Max aperture'' clean_aperture_f
                 (map Max_aperture rows)) (\<lambda>min_aperture.
     let h1 = rename_columns (set_column ''Min_Aperture_F'' h) in
     err_bind (apply_column h1 ''Dimensions'' clean_dimensions (map Dimensions rows)) (\<lambda>dims.
     let h2 = foldl (\<lambda>a c. set_column c a) h1 [''Dim_L'', ''Dim_W'', ''Dim_H''] in
     err_bind (get_column h2 ''Max. video resolution'' (map Max_video_resolution rows)) (\<lambda>video.
     let h3 = set_column ''Supports_4K'' h2 in
     err_bind (get_column h3 ''Total megapixels'' (map Total_megapixels rows)) (\<lambda>total.
     err_bind (get_column h3 ''Effective megapixels'' (map Effective_megapixels rows)) (\<lambda>effective.
     err_bind (get_column h3 ''Megapixels'' (map Megapixels rows)) (\<lambda>mega.
     err_bind (get_column h3 ''Crop factor'' (map Crop_factor rows)) (\<lambda>crop.
     Inr \<lparr>columns = h3,
          data = map (\<lambda>i.
            \<lparr>Weight_g = weight ! i,
             Max_ISO = iso ! i,
             Min_Shutter_Speed_Sec = min_shutter ! i,
             Max_Shutter_Speed_Sec = max_shutter ! i,
             Max_Exposure_Comp = exposure ! i,
             Screen_Res_Dots = screen_res ! i,
             Screen_Size_in = screen_size ! i,
             Normal_Focus_cm = normal_focus ! i,
             Macro_Focus_cm = macro_focus ! i,
             Max_aperture_text = Max_aperture (rows ! i),
             Min_Aperture_F = min_aperture ! i,
             Dimensions_text = Dimensions (rows ! i),
             Dim_L = fst (dims ! i),
             Dim_W = fst (snd (dims ! i)),
             Dim_H = snd (snd (dims ! i)),
             Max_video_resolution_text = video ! i,
             Supports_4K = supports_4k (video ! i),
             Total_megapixels_num = to_numeric_cell to_numeric (total ! i),
             Effective_megapixels_num = to_numeric_cell to_numeric (effective ! i),
             Megapixels_num = to_numeric_cell to_numeric (mega ! i),
             Crop_factor_num = to_numeric_cell to_numeric (crop ! i)\<rparr>)
            [0..<length rows]\<rparr>)))))))))))))))))"

definition clean_and_derive_features ::
  "(string \<Rightarrow> cell) \<Rightarrow> raw_camera frame \<Rightarrow> py_error + scored_camera frame" where
  "clean_and_derive_features to_numeric df =
     err_bind (clean_features to_numeric df) (\<lambda>cleaned.
     err_bind (reorder_columns (foldl (\<lambda>a c. set_column c a) (columns cleaned) score_names))
       (\<lambda>cols. Inr \<lparr>columns = cols, data = derive_scores (data cleaned)\<rparr>))"

section \<open>A sample batch\<close>

text \<open>
  Two records for the concrete checks below: the first has a weight, an ISO range, an
  aperture and dimensions, the second only a weight and a 4K video mode.
\<close>

definition input_columns :: "string list" where
  "input_columns =
     [''Model'', ''Weight'', ''ISO'', ''Min. shutter speed'', ''Max. shutter speed'',
      ''Exposure Compensation'', ''Screen resolution'', ''Screen size'',
      ''Normal focus range'', ''Macro focus range'', ''Max aperture'', ''Dimensions'',
      ''Max. video resolution'', ''Total megapixels'', ''Effective megapixels'',
      ''Megapixels'', ''Crop factor'']"

definition blank_camera :: raw_camera where
  "blank_camera =
     \<lparr>Weight = None, ISO = None, Min_shutter_speed = None, Max_shutter_speed = None,
      Exposure_Compensation = None, Screen_resolution = None, Screen_size = None,
      Normal_focus_range = None, Macro_focus_range = None, Max_aperture = None,
      Dimensions = None, Max_video_resolution = None, Total_megapixels = None,
      Effective_megapixels = None, Megapixels = None, Crop_factor = None\<rparr>"

definition example_batch :: "raw_camera frame" where
  "example_batch =
     \<lparr>columns = input_columns,
      data = [blank_camera\<lparr>Weight := Some ''450 g'', ISO := Some ''100-6400'',
                           Max_aperture := Some ''F2.8'', Dimensions := Some ''10x5x2''\<rparr>,
              blank_camera\<lparr>Weight := Some ''300 g'', Max_video_resolution := Some ''4K''\<rparr>]\<rparr>"

definition example_clean :: "clean_camera list" where
  "example_clean =
          [\<lparr>Weight_g = Some (Fin 450), Max_ISO = Some (Fin 6400),
                 Min_Shutter_Speed_Sec = None, Max_Shutter_Speed_Sec = None,
                 Max_Exposure_Comp = None, Screen_Res_Dots = None,
                 Screen_Size_in = None, Normal_Focus_cm = None,
                 Macro_Focus_cm = None, Max_aperture_text = Some ''F2.8'',
                 Min_Aperture_F = Some (Fin (14 / 5)),
                 Dimensions_text = Some ''10x5x2'', Dim_L = Some (Fin 10),
                 Dim_W = Some (Fin 5), Dim_H = Some (Fin 2),
                 Max_video_resolution_text = None, Supports_4K = False,
                 Total_megapixels_num = None,
                 Effective_megapixels_num = None, Megapixels_num = None,
                 Crop_factor_num = None\<rparr>,
           \<lparr>Weight_g = Some (Fin 300), Max_ISO = None,
                 Min_Shutter_Speed_Sec = None, Max_Shutter_Speed_Sec = None,
                 Max_Exposure_Comp = None, Screen_Res_Dots = None,
                 Screen_Size_in = None, Normal_Focus_cm = None,
                 Macro_Focus_cm = None, Max_aperture_text = None,
                 Min_Aperture_F = None, Dimensions_text = None,
                 Dim_L = None, Dim_W = None, Dim_H = None,
                 Max_video_resolution_text = Some ''4K'', Supports_4K = True,
                 Total_megapixels_num = None,
                 Effective_megapixels_num = None, Megapixels_num = None,
                 Crop_factor_num = None\<rparr>]"

definition example_output :: "scored_camera frame" where
  "example_output =
     \<lparr>columns =
        [''Model'', ''Weight_g'', ''Max_ISO'', ''Min_Shutter_Speed_Sec'',
         ''Max_Shutter_Speed_Sec'', ''Max_Exposure_Comp'',
         ''Screen_Res_Dots'', ''Screen_Size_in'', ''Normal_Focus_cm'',
         ''Macro_Focus_cm'', ''Max aperture'', ''Min_Aperture_F'',
         ''Dimensions'', ''Max. video resolution'', ''Total megapixels'',
         ''Effective megapixels'', ''Megapixels'', ''Crop factor'',
         ''Dim_L'', ''Dim_W'', ''Dim_H'', ''Supports_4K'',
         ''Portability_Score'', ''Aperture_Value'', ''LowLight_Score'',
         ''Video_Score''],
      data =
        [\<lparr>features = example_clean ! 0, Portability_Score = Some 50,
          Aperture_Value = Some (Fin (5 / 14)), LowLight_Score = Some 95,
          Video_Score = Some 45\<rparr>,
         \<lparr>features = example_clean ! 1, Portability_Score = Some 100,
          Aperture_Value = None, LowLight_Score = Some 55, Video_Score = Some 85\<rparr>]\<rparr>"

text \<open>
  The same records read from a JSON file in which every record starts with a key
  \<^verbatim>\<open>Min_Aperture_F\<close> of its own, and the column order that the transform gives them.
\<close>

definition keyed_batch :: "raw_camera frame" where
  \<comment> \<open>the sample records, each with a key \<^verbatim>\<open>Min_Aperture_F\<close> of its own in first place;
      line 114 overwrites the cells of that column, so the rows need no field for them\<close>
  "keyed_batch = example_batch\<lparr>columns := ''Min_Aperture_F'' # input_columns\<rparr>"

definition keyed_output_columns :: "string list" where
  "keyed_output_columns =
     [''Model'', ''Weight_g'', ''Max_ISO'', ''Min_Shutter_Speed_Sec'',
      ''Max_Shutter_Speed_Sec'', ''Max_Exposure_Comp'',
      ''Screen_Res_Dots'', ''Screen_Size_in'', ''Normal_Focus_cm'',
      ''Macro_Focus_cm'', ''Max aperture'', ''Dimensions'', ''Min_Aperture_F'',
      ''Max. video resolution'', ''Total megapixels'',
      ''Effective megapixels'', ''Megapixels'', ''Crop factor'',
      ''Dim_L'', ''Dim_W'', ''Dim_H'', ''Supports_4K'',
      ''Portability_Score'', ''Aperture_Value'', ''LowLight_Score'',
      ''Video_Score'']"

section \<open>Reordering the rows of a table\<close>

definition reorder_rows :: "nat list \<Rightarrow> 'a list \<Rightarrow> 'a list" where
  \<comment> \<open>the rows \<open>xs\<close> taken in the order of the positions \<open>p\<close>; \<open>p\<close> is a permutation of
      the positions when \<open>mset p = mset [0..<length xs]\<close>\<close>
  "reorder_rows p xs = map (\<lambda>k. xs ! k) p"

section \<open>Properties of the conversions and of the regular expressions\<close>

lemma is_digit_not_dot: "is_digit c \<Longrightarrow> c \<noteq> CHR ''.''"
  by (auto simp: is_digit_def)

lemma takeWhile_all: "list_all P xs \<Longrightarrow> takeWhile P xs = xs"
  by (simp add: list_all_iff)

lemma dropWhile_all: "list_all P xs \<Longrightarrow> dropWhile P xs = []"
  by (simp add: list_all_iff)

lemma float_str_value: "float_str t = Inr v \<Longrightarrow> v = Fin (decimal_value t)"
proof (cases "dropWhile is_digit t")
  case Nil
  assume "float_str t = Inr v"
  then show ?thesis unfolding float_str_def decimal_value_def Let_def Nil
    by (simp add: digits_val_def split: if_splits)
next
  case (Cons d fp)
  assume "float_str t = Inr v"
  then show ?thesis unfolding float_str_def decimal_value_def Let_def Cons
    by (simp split: if_splits)
qed

lemma float_str_error: "float_str t = Inl e \<Longrightarrow> e = ValueError"
  by (cases "dropWhile is_digit t") (simp_all add: float_str_def Let_def split: if_splits)

lemma float_str_digits:
  assumes "t \<noteq> []" "list_all is_digit t"
  shows "float_str t = Inr (Fin (of_nat (digits_val t)))"
  using assms by (simp add: float_str_def takeWhile_all dropWhile_all)

lemma filter_dot_digits: "list_all is_digit t \<Longrightarrow> filter (\<lambda>c. c = CHR ''.'') t = []"
  by (induction t) (auto dest: is_digit_not_dot)

lemma float_str_numch:
  assumes "list_all is_numch t"
  shows "float_str t = (if well_formed_decimal t then Inr (Fin (decimal_value t)) else Inl ValueError)"
proof -
  define ip where "ip = takeWhile is_digit t"
  define rest where "rest = dropWhile is_digit t"
  have t: "t = ip @ rest" by (simp add: ip_def rest_def)
  have ipd: "list_all is_digit ip" by (auto simp: ip_def list_all_iff dest: set_takeWhileD)
  have ipf: "filter (\<lambda>c. c = CHR ''.'') ip = []" using ipd by (rule filter_dot_digits)
  show ?thesis
  proof (cases rest)
    case Nil
    then have "t = ip" using t by simp
    then have wf: "well_formed_decimal t = (ip \<noteq> [])"
      using ipd ipf by (cases ip) (auto simp: well_formed_decimal_def list_all_iff list_ex_iff)
    show ?thesis
      using Nil wf unfolding float_str_def decimal_value_def Let_def ip_def [symmetric] rest_def [symmetric]
      by (simp add: digits_val_def)
  next
    case (Cons d fp)
    have "\<not> is_digit d" using Cons hd_dropWhile [of is_digit t] by (auto simp: rest_def)
    moreover have "is_numch d" using assms t Cons by (simp add: list_all_iff)
    ultimately have d: "d = CHR ''.''" by (simp add: is_numch_def)
    have fpn: "list_all is_numch fp" using assms t Cons by (simp add: list_all_iff)
    have dots: "(filter (\<lambda>c. c = CHR ''.'') fp = []) = list_all is_digit fp"
      using fpn by (induction fp) (auto simp: is_numch_def dest: is_digit_not_dot)
    have "length (filter (\<lambda>c. c = CHR ''.'') t) = 1 + length (filter (\<lambda>c. c = CHR ''.'') fp)"
      using t Cons d ipf by simp
    then have c1: "(length (filter (\<lambda>c. c = CHR ''.'') t) \<le> 1) = list_all is_digit fp"
      using dots by simp
    have c2: "list_all is_digit fp \<Longrightarrow> list_ex is_digit t = (ip \<noteq> [] \<or> fp \<noteq> [])"
    proof -
      assume fd: "list_all is_digit fp"
      have "set t = set ip \<union> {d} \<union> set fp" using t Cons by auto
      then show ?thesis using fd ipd d
        by (cases ip; cases fp) (auto simp: list_ex_iff list_all_iff dest: is_digit_not_dot)
    qed
    have wf: "well_formed_decimal t = (list_all is_digit fp \<and> (ip \<noteq> [] \<or> fp \<noteq> []))"
      using c1 c2 by (auto simp: well_formed_decimal_def)
    show ?thesis
      using Cons d wf unfolding float_str_def decimal_value_def Let_def ip_def [symmetric] rest_def [symmetric]
      by simp
  qed
qed

lemma findall_run_tokens: "t \<in> set (findall_run P s) \<Longrightarrow> t \<noteq> [] \<and> list_all P t"
proof (induction P s rule: findall_run.induct)
  case (1 P)
  then show ?case by simp
next
  case (2 P c r)
  show ?case
  proof (cases "P c")
    case True
    with 2(3) have "t = c # takeWhile P r \<or> t \<in> set (findall_run P (dropWhile P r))"
      by simp
    then show ?thesis
    proof
      assume "t = c # takeWhile P r"
      then show ?thesis using True by (auto simp: list_all_iff dest: set_takeWhileD)
    next
      assume "t \<in> set (findall_run P (dropWhile P r))"
      then show ?thesis using 2(1) True by blast
    qed
  next
    case False
    with 2(3) have "t \<in> set (findall_run P r)" by simp
    then show ?thesis using 2(2) False by blast
  qed
qed


lemma findall_digits_float:
  "t \<in> set (findall_digits s) \<Longrightarrow> float_str t = Inr (Fin (of_nat (digits_val t)))"
  using findall_run_tokens [of t is_digit s] by (simp add: findall_digits_def float_str_digits)

lemma filter_dot_append_digits:
  assumes "list_all is_digit ip" "list_all is_digit fp"
  shows "filter (\<lambda>c. c = CHR ''.'') (ip @ CHR ''.'' # fp) = [CHR ''.'']"
  using assms by (simp add: filter_dot_digits)

lemma decimal_token_digits:
  assumes "t \<noteq> []" "list_all is_digit t"
  shows "list_all is_numch t \<and> well_formed_decimal t"
  using assms
  by (cases t) (auto simp: well_formed_decimal_def filter_dot_digits is_numch_def list_all_iff list_ex_iff)

lemma decimal_token_dot:
  assumes "ip \<noteq> []" "list_all is_digit ip" "list_all is_digit fp"
  shows "list_all is_numch (ip @ CHR ''.'' # fp) \<and> well_formed_decimal (ip @ CHR ''.'' # fp)"
proof -
  have "list_ex is_digit (ip @ CHR ''.'' # fp)"
    using assms(1,2) by (cases ip) (auto simp: list_ex_iff list_all_iff)
  moreover have "list_all is_numch (ip @ CHR ''.'' # fp)"
    using assms by (auto simp: list_all_iff is_numch_def)
  ultimately show ?thesis
    using filter_dot_append_digits [OF assms(2,3)] by (simp add: well_formed_decimal_def)
qed

lemma takeWhile_digits: "list_all is_digit (takeWhile is_digit r)"
  by (auto simp: list_all_iff dest: set_takeWhileD)

lemma findall_decimal_tokens:
  "t \<in> set (findall_decimal s) \<Longrightarrow> list_all is_numch t \<and> well_formed_decimal t"
proof (induction s rule: findall_decimal.induct)
  case 1
  then show ?case by simp
next
  case (2 c r)
  show ?case
  proof (cases "is_digit c")
    case False
    with 2(4) have "t \<in> set (findall_decimal r)" by simp
    then show ?thesis using 2(3) False by blast
  next
    case True
    define ip where "ip = c # takeWhile is_digit r"
    have ipd: "ip \<noteq> []" "list_all is_digit ip"
      using True takeWhile_digits [of r] by (simp_all add: ip_def)
    show ?thesis
    proof (cases "dropWhile is_digit r")
      case Nil
      with 2(4) True have "t = ip" by (simp add: ip_def)
      then show ?thesis using decimal_token_digits [OF ipd] by simp
    next
      case (Cons d r2)
      show ?thesis
      proof (cases "d = CHR ''.'' \<and> takeWhile is_digit r2 \<noteq> []")
        case yes: True
        with 2(4) True Cons have
          "t = ip @ CHR ''.'' # takeWhile is_digit r2 \<or> t \<in> set (findall_decimal (dropWhile is_digit r2))"
          by (simp add: ip_def)
        then show ?thesis
        proof
          assume "t = ip @ CHR ''.'' # takeWhile is_digit r2"
          then show ?thesis
            using decimal_token_dot [OF ipd takeWhile_digits [of r2]] by simp
        next
          assume "t \<in> set (findall_decimal (dropWhile is_digit r2))"
          then show ?thesis using 2(1) [OF True ip_def Cons yes] by blast
        qed
      next
        case no: False
        with 2(4) True Cons have "t = ip \<or> t \<in> set (findall_decimal (d # r2))"
          by (auto simp: ip_def)
        then show ?thesis
        proof
          assume "t = ip"
          then show ?thesis using decimal_token_digits [OF ipd] by simp
        next
          assume "t \<in> set (findall_decimal (d # r2))"
          then show ?thesis using 2(2) [OF True ip_def Cons no] by blast
        qed
      qed
    qed
  qed
qed

lemma findall_decimal_float:
  "t \<in> set (findall_decimal s) \<Longrightarrow> float_str t = Inr (Fin (decimal_value t))"
  using findall_decimal_tokens [of t s] by (simp add: float_str_numch)

lemma floats_map:
  "(\<And>t. t \<in> set ts \<Longrightarrow> float_str t = Inr (Fin (f t))) \<Longrightarrow> floats ts = Inr (map (\<lambda>t. Fin (f t)) ts)"
  by (induction ts) (simp_all add: err_bind_def)

lemma floats_findall_decimal:
  "floats (findall_decimal d) = Inr (map (\<lambda>t. Fin (decimal_value t)) (findall_decimal d))"
  by (rule floats_map) (rule findall_decimal_float)

lemmas char_class_defs = is_digit_def is_numch_def is_space_def is_sign_def lower_char_def
lemmas str_defs = str_strip_def str_lower_def remove_char_def after_last_slash_def
lemmas conv_defs = digit_val_def digits_val_def float_str_def to_cell_def err_bind_def
  py_reciprocal_def decimal_value_def

text \<open>
  C2. Every field normalizer is total: it never raises.
  The code breaks this: \<^verbatim>\<open>clean_weight("approx. 123 g")\<close> raises ValueError, because the
  leftmost match of \<^verbatim>\<open>[\d.]+\<close> is the dot of the abbreviation and \<^verbatim>\<open>float(".")\<close> fails.
\<close>

theorem clean_weight_raises:
  "clean_weight (Some ''approx. 123 g'') = Inl ValueError"
  by (simp add: clean_weight_def search_num_def char_class_defs str_defs conv_defs)

lemma remove_char_idem: "remove_char c (remove_char c s) = remove_char c s"
  by (simp add: remove_char_def)

text \<open>
  C9. \<open>clean_max_iso\<close> removes the commas before it extracts the integer runs: for every
  text the result is the value of the last integer run of the comma-free text (the missing
  value when there is none). So \<^verbatim>\<open>"100-12,800"\<close>, whose comma-free runs are 100 and
  12800, yields 12800 and not the 800 that follows the comma in the raw text.
\<close>

theorem clean_max_iso_thousands:
  "clean_max_iso (Some i) =
     (case findall_digits (str_strip (remove_char (CHR '','') i)) of
        [] \<Rightarrow> Inr None
      | g # gs \<Rightarrow> Inr (Some (Fin (of_nat (digits_val (last (g # gs)))))))
   \<and> CHR '','' \<notin> set (str_strip (remove_char (CHR '','') i))
   \<and> clean_max_iso (Some (remove_char (CHR '','') i)) = clean_max_iso (Some i)
   \<and> clean_max_iso (Some ''100-12,800'') = Inr (Some (Fin 12800))
   \<and> findall_digits (str_strip (remove_char (CHR '','') ''100-12,800'')) = [''100'', ''12800'']
   \<and> last (findall_digits ''100-12,800'') = ''800''"
proof -
  define runs where "runs = findall_digits (str_strip (remove_char (CHR '','') i))"
  have g: "clean_max_iso (Some i) =
     (case runs of
        [] \<Rightarrow> Inr None
      | g # gs \<Rightarrow> Inr (Some (Fin (of_nat (digits_val (last (g # gs)))))))"
  proof (cases runs)
    case Nil
    then show ?thesis by (simp add: clean_max_iso_def runs_def [symmetric])
  next
    case (Cons g gs)
    then have "last runs \<in> set runs" by simp
    then have "float_str (last runs) = Inr (Fin (of_nat (digits_val (last runs))))"
      unfolding runs_def by (rule findall_digits_float)
    then show ?thesis using Cons
      by (simp add: clean_max_iso_def runs_def [symmetric] to_cell_def err_bind_def)
  qed
  have "set (str_strip s) \<subseteq> set s" for s
  proof
    fix x assume "x \<in> set (str_strip s)"
    then have "x \<in> set (dropWhile is_space (rev (dropWhile is_space s)))"
      by (simp add: str_strip_def)
    then have "x \<in> set (rev (dropWhile is_space s))" by (rule set_dropWhileD)
    then have "x \<in> set (dropWhile is_space s)" by simp
    then show "x \<in> set s" by (rule set_dropWhileD)
  qed
  then have sub: "set (str_strip (remove_char (CHR '','') i)) \<subseteq> set (remove_char (CHR '','') i)" .
  have "CHR '','' \<notin> set (remove_char (CHR '','') i)" by (simp add: remove_char_def)
  then have n: "CHR '','' \<notin> set (str_strip (remove_char (CHR '','') i))"
    using sub by blast
  have a: "clean_max_iso (Some ''100-12,800'') = Inr (Some (Fin 12800))"
    by (simp add: clean_max_iso_def findall_digits_def char_class_defs str_defs conv_defs)
  have r: "findall_digits (str_strip (remove_char (CHR '','') ''100-12,800'')) = [''100'', ''12800'']"
    by (simp add: findall_digits_def char_class_defs str_defs)
  have b: "last (findall_digits ''100-12,800'') = ''800''"
    by (simp add: findall_digits_def char_class_defs)
  have c: "clean_max_iso (Some (remove_char (CHR '','') i)) = clean_max_iso (Some i)"
    by (simp add: clean_max_iso_def remove_char_idem)
  show ?thesis using g n a r b c unfolding runs_def by blast
qed


text \<open>
  C8. \<open>clean_dimensions\<close> maps \<^verbatim>\<open>"120 x 80 x 45 mm"\<close> to (120, 80, 45); from every text
  with at least three numeric tokens it returns the values of the first three, from every
  text with fewer (such as \<^verbatim>\<open>"120 x 80"\<close>) and from a missing cell the all-missing triple.
  It never raises.
\<close>

theorem clean_dimensions_spec:
  "clean_dimensions (Some ''120 x 80 x 45 mm'') = Inr (Some (Fin 120), Some (Fin 80), Some (Fin 45))
   \<and> clean_dimensions (Some ''120 x 80'') = Inr (None, None, None)
   \<and> clean_dimensions None = Inr (None, None, None)
   \<and> (3 \<le> length (findall_decimal d) \<longrightarrow>
        clean_dimensions (Some d) =
          Inr (Some (Fin (decimal_value (findall_decimal d ! 0))),
               Some (Fin (decimal_value (findall_decimal d ! 1))),
               Some (Fin (decimal_value (findall_decimal d ! 2)))))
   \<and> (length (findall_decimal d) < 3 \<longrightarrow> clean_dimensions (Some d) = Inr (None, None, None))"
proof -
  have a: "clean_dimensions (Some ''120 x 80 x 45 mm'')
           = Inr (Some (Fin 120), Some (Fin 80), Some (Fin 45))"
    by (simp add: clean_dimensions_def char_class_defs conv_defs)
  have b: "clean_dimensions (Some ''120 x 80'') = Inr (None, None, None)"
    by (simp add: clean_dimensions_def char_class_defs conv_defs)
  have c: "clean_dimensions None = Inr (None, None, None)"
    by (simp add: clean_dimensions_def)
  have d: "3 \<le> length (findall_decimal d) \<longrightarrow>
        clean_dimensions (Some d) =
          Inr (Some (Fin (decimal_value (findall_decimal d ! 0))),
               Some (Fin (decimal_value (findall_decimal d ! 1))),
               Some (Fin (decimal_value (findall_decimal d ! 2))))"
  proof
    assume l: "3 \<le> length (findall_decimal d)"
    then have "0 < length (findall_decimal d)" "1 < length (findall_decimal d)"
      "2 < length (findall_decimal d)" by auto
    then show "clean_dimensions (Some d) =
          Inr (Some (Fin (decimal_value (findall_decimal d ! 0))),
               Some (Fin (decimal_value (findall_decimal d ! 1))),
               Some (Fin (decimal_value (findall_decimal d ! 2))))"
      using l by (simp add: clean_dimensions_def floats_findall_decimal err_bind_def)
  qed
  have e: "length (findall_decimal d) < 3 \<longrightarrow> clean_dimensions (Some d) = Inr (None, None, None)"
    by (simp add: clean_dimensions_def floats_findall_decimal err_bind_def)
  show ?thesis using a b c d e by blast
qed

theorem clean_dimensions_spec_witness:
  "3 \<le> length (findall_decimal ''4.5x3x2.25 in'')
   \<and> clean_dimensions (Some ''4.5x3x2.25 in'') = Inr (Some (Fin (9/2)), Some (Fin 3), Some (Fin (9/4)))
   \<and> length (findall_decimal ''7 by 5.'') < 3
   \<and> clean_dimensions (Some ''7 by 5.'') = Inr (None, None, None)"
  using clean_dimensions_spec [of "''4.5x3x2.25 in''"] clean_dimensions_spec [of "''7 by 5.''"]
  by (simp add: char_class_defs conv_defs)











lemma to_cell_float_str:
  "list_all is_numch g \<Longrightarrow>
   to_cell (float_str g) =
     (if well_formed_decimal g then Inr (Some (Fin (decimal_value g))) else Inl ValueError)"
  by (simp add: float_str_numch to_cell_def err_bind_def)

lemma search_num_numch: "search_num s = Some g \<Longrightarrow> list_all is_numch g"
  by (auto simp: search_num_def list_all_iff split: list.splits if_splits dest: set_takeWhileD)




lemma shutter_fraction_eval:
  "shutter_fraction s =
     (case findall_digits (after_last_slash s) of
        [] \<Rightarrow> Inl IndexError
      | g # _ \<Rightarrow> if digits_val g = 0 then Inl ZeroDivisionError
                 else Inr (Fin (1 / of_nat (digits_val g))))"
proof (cases "findall_digits (after_last_slash s)")
  case Nil
  then show ?thesis by (simp add: shutter_fraction_def)
next
  case (Cons g gs)
  then have "g \<in> set (findall_digits (after_last_slash s))" by simp
  then have "float_str g = Inr (Fin (of_nat (digits_val g)))" by (rule findall_digits_float)
  then show ?thesis using Cons by (simp add: shutter_fraction_def err_bind_def py_reciprocal_def)
qed

text \<open>
  C5, as the code has it. \<open>clean_shutter_speed\<close> maps \<^verbatim>\<open>"1/4000 sec"\<close> to 0.00025,
  \<^verbatim>\<open>"30 sec"\<close> to 30.0 and \<^verbatim>\<open>"1/sec"\<close> to the missing value. With \<open>s\<close> the text in lower
  case and stripped: when \<open>s\<close> holds \<^verbatim>\<open>/\<close> and \<^verbatim>\<open>sec\<close>, the result is the reciprocal of the
  first integer run after the last \<^verbatim>\<open>/\<close> when that run exists and is not zero, and the
  missing value when there is no such run or it is zero; otherwise the result is the
  missing value when \<open>s\<close> has no digit and no dot, and the value of the first run of
  digits and dots when that run is a well-formed decimal.
\<close>

theorem clean_shutter_speed_spec:
  "clean_shutter_speed (Some ''1/4000 sec'') = Inr (Some (Fin (1 / 4000)))
   \<and> clean_shutter_speed (Some ''30 sec'') = Inr (Some (Fin 30))
   \<and> clean_shutter_speed (Some ''1/sec'') = Inr None
   \<and> (contains ''/'' (str_strip (str_lower x)) \<and> contains ''sec'' (str_strip (str_lower x)) \<longrightarrow>
        clean_shutter_speed (Some x) =
          (case findall_digits (after_last_slash (str_strip (str_lower x))) of
             [] \<Rightarrow> Inr None
           | g # _ \<Rightarrow> if digits_val g = 0 then Inr None
                      else Inr (Some (Fin (1 / of_nat (digits_val g))))))
   \<and> (\<not> (contains ''/'' (str_strip (str_lower x)) \<and> contains ''sec'' (str_strip (str_lower x))) \<longrightarrow>
        (search_num (str_strip (str_lower x)) = None \<longrightarrow> clean_shutter_speed (Some x) = Inr None)
        \<and> (\<forall>g. search_num (str_strip (str_lower x)) = Some g \<and> well_formed_decimal g \<longrightarrow>
               clean_shutter_speed (Some x) = Inr (Some (Fin (decimal_value g)))))"
proof -
  have a: "clean_shutter_speed (Some ''1/4000 sec'') = Inr (Some (Fin (1 / 4000)))"
    by (simp add: clean_shutter_speed_def shutter_fraction_def findall_digits_def search_num_def
        char_class_defs str_defs conv_defs)
  have b: "clean_shutter_speed (Some ''30 sec'') = Inr (Some (Fin 30))"
    by (simp add: clean_shutter_speed_def shutter_fraction_def findall_digits_def search_num_def
        char_class_defs str_defs conv_defs)
  have c: "clean_shutter_speed (Some ''1/sec'') = Inr None"
    by (simp add: clean_shutter_speed_def shutter_fraction_def findall_digits_def search_num_def
        char_class_defs str_defs conv_defs)
  define s where "s = str_strip (str_lower x)"
  have body: "clean_shutter_speed (Some x) =
      (if contains ''/'' s \<and> contains ''sec'' s
       then (case shutter_fraction s of Inr v \<Rightarrow> Inr (Some v) | Inl _ \<Rightarrow> Inr None)
       else (case search_num s of None \<Rightarrow> Inr None | Some g \<Rightarrow> to_cell (float_str g)))"
    by (simp only: clean_shutter_speed_def Let_def s_def option.case)
  have d: "contains ''/'' s \<and> contains ''sec'' s \<longrightarrow>
        clean_shutter_speed (Some x) =
          (case findall_digits (after_last_slash s) of
             [] \<Rightarrow> Inr None
           | g # _ \<Rightarrow> if digits_val g = 0 then Inr None
                      else Inr (Some (Fin (1 / of_nat (digits_val g)))))"
    by (cases "findall_digits (after_last_slash s)") (simp_all add: body shutter_fraction_eval)
  have e1: "\<not> (contains ''/'' s \<and> contains ''sec'' s) \<longrightarrow> search_num s = None \<longrightarrow>
        clean_shutter_speed (Some x) = Inr None"
    by (simp add: body)
  have e2: "\<not> (contains ''/'' s \<and> contains ''sec'' s) \<longrightarrow>
        (\<forall>g. search_num s = Some g \<and> well_formed_decimal g \<longrightarrow>
               clean_shutter_speed (Some x) = Inr (Some (Fin (decimal_value g))))"
    using search_num_numch [of s] by (auto simp: body to_cell_float_str)
  have e: "\<not> (contains ''/'' s \<and> contains ''sec'' s) \<longrightarrow>
        (search_num s = None \<longrightarrow> clean_shutter_speed (Some x) = Inr None)
        \<and> (\<forall>g. search_num s = Some g \<and> well_formed_decimal g \<longrightarrow>
               clean_shutter_speed (Some x) = Inr (Some (Fin (decimal_value g))))"
    using e1 e2 by blast
  show ?thesis using a b c d e unfolding s_def by blast
qed

theorem clean_shutter_speed_spec_witness:
  "contains ''/'' (str_strip (str_lower ''1/250 Sec'')) \<and> contains ''sec'' (str_strip (str_lower ''1/250 Sec''))
   \<and> clean_shutter_speed (Some ''1/250 Sec'') = Inr (Some (Fin (1 / 250)))
   \<and> \<not> (contains ''/'' (str_strip (str_lower ''2.5 s'')) \<and> contains ''sec'' (str_strip (str_lower ''2.5 s'')))
   \<and> search_num (str_strip (str_lower ''2.5 s'')) = Some ''2.5'' \<and> well_formed_decimal ''2.5''
   \<and> clean_shutter_speed (Some ''2.5 s'') = Inr (Some (Fin (5 / 2)))
   \<and> \<not> (contains ''/'' (str_strip (str_lower ''bulb'')) \<and> contains ''sec'' (str_strip (str_lower ''bulb'')))
   \<and> search_num (str_strip (str_lower ''bulb'')) = None
   \<and> clean_shutter_speed (Some ''bulb'') = Inr None"
  using clean_shutter_speed_spec [of "''1/250 Sec''"] clean_shutter_speed_spec [of "''2.5 s''"]
    clean_shutter_speed_spec [of "''bulb''"]
  by (simp add: findall_digits_def search_num_def well_formed_decimal_def char_class_defs
      str_defs conv_defs)

text \<open>
  C5 as stated fails: \<^verbatim>\<open>"1/0 sec"\<close> holds \<^verbatim>\<open>/\<close> and \<^verbatim>\<open>sec\<close> and an integer run after the
  \<^verbatim>\<open>/\<close>, and the result is the missing value (the division by zero is caught).
\<close>

theorem clean_shutter_speed_zero_counterexample:
  "clean_shutter_speed (Some ''1/0 sec'') = Inr None
   \<and> contains ''/'' ''1/0 sec'' \<and> contains ''sec'' ''1/0 sec''
   \<and> findall_digits (after_last_slash ''1/0 sec'') = [''0'']"
  by (simp add: clean_shutter_speed_def shutter_fraction_def findall_digits_def search_num_def
      char_class_defs str_defs conv_defs)

section \<open>Properties of the table operations\<close>

lemmas frame_defs = clean_and_derive_features_def clean_features_def apply_column_def get_column_def
  set_column_def rename_columns_def renames_def reorder_columns_def index_of_def list_insert_def
  score_names_def supports_4k_def to_numeric_cell_def
lemmas score_defs = derive_scores_def Portability_Score_column_def LowLight_Score_column_def
  Video_Score_column_def Aperture_Value_column_def weight_rank_def volume_rank_def iso_rank_def
  aperture_rank_def crop_rank_def screen_rank_def shutter_rank_def supports_4k_int_def
  inverse_volume_def cell_mul_def cell_recip_def col_scale_def col_add_def col_clip_def
  series_rank_def average_rank_def ranked_count_def count_na_def count_before_def count_ties_def
lemmas normalizer_defs = clean_weight_def clean_max_iso_def clean_shutter_speed_def
  clean_exposure_range_def clean_screen_res_def clean_screen_size_def clean_focus_range_def
  clean_aperture_f_def clean_dimensions_def findall_digits_def findall_numch_def search_num_def
  shutter_fraction_def match_ev_def



lemma err_bind_Inr: "err_bind (Inr v) f = f v"
  by (simp add: err_bind_def)

lemma err_bind_Inl: "err_bind (Inl e) f = Inl e"
  by (simp add: err_bind_def)

lemma err_bind_weak_cong: "m = m' \<Longrightarrow> err_bind m f = err_bind m' f"
  by simp

lemma example_clean_run:
  "clean_features (\<lambda>s. None) example_batch =
     Inr \<lparr>columns =
        [''Model'', ''Weight_g'', ''Max_ISO'', ''Min_Shutter_Speed_Sec'',
         ''Max_Shutter_Speed_Sec'', ''Max_Exposure_Comp'',
         ''Screen_Res_Dots'', ''Screen_Size_in'', ''Normal_Focus_cm'',
         ''Macro_Focus_cm'', ''Max aperture'',
         ''Dimensions'', ''Max. video resolution'', ''Total megapixels'',
         ''Effective megapixels'', ''Megapixels'', ''Crop factor'', ''Min_Aperture_F'',
         ''Dim_L'', ''Dim_W'', ''Dim_H'', ''Supports_4K''], data = example_clean\<rparr>"
  by (simp add: example_batch_def example_clean_def input_columns_def
      blank_camera_def clean_features_def apply_column_def get_column_def
      set_column_def rename_columns_def renames_def supports_4k_def to_numeric_cell_def
      normalizer_defs char_class_defs str_defs
      digit_val_def digits_val_def float_str_def to_cell_def py_reciprocal_def decimal_value_def
      err_bind_Inr err_bind_Inl Let_def
      cong: err_bind_weak_cong)

lemma example_ranks:
  "weight_rank example_clean = [Some (1 / 2), Some 1]"
  "volume_rank example_clean = [Some (1 / 2), Some 1]"
  "iso_rank example_clean = [Some 1, Some (1 / 2)]"
  "aperture_rank example_clean = [Some 1, Some (1 / 2)]"
  "crop_rank example_clean = [Some (3 / 4), Some (3 / 4)]"
  "screen_rank example_clean = [Some (3 / 4), Some (3 / 4)]"
  "shutter_rank example_clean = [Some (3 / 4), Some (3 / 4)]"
  by (simp_all add: example_clean_def score_defs less_fl_def)

lemma example_scores:
  "Portability_Score_column example_clean = [Some 50, Some 100]"
  "Aperture_Value_column example_clean = [Some (Fin (5 / 14)), None]"
  "LowLight_Score_column example_clean = [Some 95, Some 55]"
  "Video_Score_column example_clean = [Some 45, Some 85]"
  unfolding Portability_Score_column_def LowLight_Score_column_def Video_Score_column_def
    example_ranks
  by (simp_all add: col_clip_def col_scale_def col_add_def supports_4k_int_def
      Aperture_Value_column_def cell_recip_def example_clean_def)

lemma example_clean_length: "length example_clean = 2"
  by (simp add: example_clean_def)

lemma example_run: "clean_and_derive_features (\<lambda>s. None) example_batch = Inr example_output"
  unfolding clean_and_derive_features_def example_clean_run err_bind_Inr
  by (simp add: derive_scores_def example_scores example_output_def score_names_def
      set_column_def reorder_columns_def index_of_def list_insert_def err_bind_Inr
      example_clean_length numeral_2_eq_2)

section \<open>Properties of the percentile ranks\<close>

lemma length_series_rank: "length (series_rank a na p col) = length col"
  by (simp add: series_rank_def)

lemma nth_series_rank:
  "i < length col \<Longrightarrow>
   series_rank a na p col ! i =
     map_option (\<lambda>r. if p then r / of_nat (ranked_count na col) else r)
       (average_rank a na col (col ! i))"
  by (simp add: series_rank_def)

lemma counts_le: "count_na col + count_before a col x + count_ties col x \<le> length col"
  by (induction col) (auto simp: count_na_def count_before_def count_ties_def split: option.splits)

lemma count_na_pos: "i < length col \<Longrightarrow> col ! i = None \<Longrightarrow> 0 < count_na col"
  unfolding count_na_def length_greater_0_conv filter_empty_conv
  by (metis nth_mem)

lemma count_ties_pos: "j < length col \<Longrightarrow> col ! j = Some x \<Longrightarrow> 0 < count_ties col x"
  unfolding count_ties_def length_greater_0_conv filter_empty_conv
  by (metis nth_mem)

lemma rank_top_missing_lowest:
  assumes "i < length col" "j < length col" "col ! i = None" "col ! j = Some x"
  shows "rank_less (series_rank a na_top True col ! i) (series_rank a na_top True col ! j)"
proof -
  define n where "n = count_na col"
  define b where "b = count_before a col x"
  define t where "t = count_ties col x"
  have n: "1 \<le> (of_nat n :: rat)" using count_na_pos [OF assms(1,3)] by (simp add: n_def)
  have t: "1 \<le> (of_nat t :: rat)" using count_ties_pos [OF assms(2,4)] by (simp add: t_def)
  have b: "0 \<le> (of_nat b :: rat)" by simp
  have lt: "(of_nat n + 1) / 2 < (of_nat n + of_nat b + (of_nat t + 1) / 2 :: rat)"
    using n t b by (simp add: field_simps)
  have N: "0 < (of_nat (length col) :: rat)" using assms(1) by (cases col) simp_all
  have "(of_nat n + 1) / 2 / of_nat (length col)
        < (of_nat n + of_nat b + (of_nat t + 1) / 2 :: rat) / of_nat (length col)"
    using lt N by (rule divide_strict_right_mono)
  then show ?thesis
    using assms
    by (simp add: nth_series_rank average_rank_def ranked_count_def rank_less_def
        n_def b_def t_def)
qed

lemma rank_bottom_missing_highest:
  assumes "i < length col" "j < length col" "col ! i = None" "col ! j = Some x"
  shows "rank_less (series_rank a na_bottom True col ! j) (series_rank a na_bottom True col ! i)"
proof -
  define n where "n = count_na col"
  define b where "b = count_before a col x"
  define t where "t = count_ties col x"
  have le: "n + b + t \<le> length col" unfolding n_def b_def t_def by (rule counts_le)
  then have "b + t \<le> length col - n" by simp
  then have "(of_nat (b + t) :: rat) \<le> of_nat (length col - n)" by (simp only: of_nat_le_iff)
  then have bt: "(of_nat b + of_nat t :: rat) \<le> of_nat (length col - n)" by simp
  have n: "1 \<le> (of_nat n :: rat)" using count_na_pos [OF assms(1,3)] by (simp add: n_def)
  have t: "1 \<le> (of_nat t :: rat)" using count_ties_pos [OF assms(2,4)] by (simp add: t_def)
  have lt: "(of_nat b + (of_nat t + 1) / 2 :: rat) < of_nat (length col - n) + (of_nat n + 1) / 2"
    using n t bt by (simp add: field_simps)
  have N: "0 < (of_nat (length col) :: rat)" using assms(1) by (cases col) simp_all
  have "(of_nat b + (of_nat t + 1) / 2 :: rat) / of_nat (length col)
        < (of_nat (length col - n) + (of_nat n + 1) / 2) / of_nat (length col)"
    using lt N by (rule divide_strict_right_mono)
  then show ?thesis
    using assms
    by (simp add: nth_series_rank average_rank_def ranked_count_def rank_less_def
        n_def b_def t_def)
qed

lemma series_rank_defined:
  "na \<noteq> na_keep \<Longrightarrow> None \<notin> set (series_rank a na p col)"
  by (cases na) (auto simp: series_rank_def average_rank_def split: option.splits)

lemma cell_recip_None: "(cell_recip x = None) = (x = None)"
  by (auto simp: cell_recip_def split: option.splits fl.splits)

lemma cell_mul_None: "x = None \<or> y = None \<Longrightarrow> cell_mul x y = None"
  by (auto simp: cell_mul_def split: option.splits fl.splits)

lemma inverse_volume_missing:
  "Dim_L r = None \<or> Dim_W r = None \<or> Dim_H r = None \<Longrightarrow> inverse_volume r = None"
  by (auto simp: inverse_volume_def cell_recip_None cell_mul_None)


text \<open>
  C1, as the code has it. In the LowLight and Video computations (\<^verbatim>\<open>na_option='top'\<close>) a
  record that misses a ranked input gets a percentile rank strictly below the rank of
  every record that has the input: missing ranks lowest, and so adds least to the score.
  In the Portability computation (\<^verbatim>\<open>na_option='bottom'\<close>) a record that misses the weight,
  or any dimension, gets a percentile rank strictly above the rank of every record with
  a value: missing ranks highest, and so adds most to the score.
\<close>

theorem missing_inputs_rank:
  assumes "i < length rows" and "j < length rows"
  shows "(Max_ISO (rows ! i) = None \<and> Max_ISO (rows ! j) \<noteq> None \<longrightarrow>
            rank_less (iso_rank rows ! i) (iso_rank rows ! j))
       \<and> (Min_Aperture_F (rows ! i) = None \<and> Min_Aperture_F (rows ! j) \<noteq> None \<longrightarrow>
            rank_less (aperture_rank rows ! i) (aperture_rank rows ! j))
       \<and> (Crop_factor_num (rows ! i) = None \<and> Crop_factor_num (rows ! j) \<noteq> None \<longrightarrow>
            rank_less (crop_rank rows ! i) (crop_rank rows ! j))
       \<and> (Screen_Size_in (rows ! i) = None \<and> Screen_Size_in (rows ! j) \<noteq> None \<longrightarrow>
            rank_less (screen_rank rows ! i) (screen_rank rows ! j))
       \<and> (Max_Shutter_Speed_Sec (rows ! i) = None \<and> Max_Shutter_Speed_Sec (rows ! j) \<noteq> None \<longrightarrow>
            rank_less (shutter_rank rows ! i) (shutter_rank rows ! j))
       \<and> (Weight_g (rows ! i) = None \<and> Weight_g (rows ! j) \<noteq> None \<longrightarrow>
            rank_less (weight_rank rows ! j) (weight_rank rows ! i))
       \<and> ((Dim_L (rows ! i) = None \<or> Dim_W (rows ! i) = None \<or> Dim_H (rows ! i) = None)
            \<and> inverse_volume (rows ! j) \<noteq> None \<longrightarrow>
            rank_less (volume_rank rows ! j) (volume_rank rows ! i))"
proof -
  have top: "rank_less (series_rank a na_top True (map f rows) ! i)
                       (series_rank a na_top True (map f rows) ! j)"
    if fi: "f (rows ! i) = None" and fj: "f (rows ! j) \<noteq> None" for a and f :: "clean_camera \<Rightarrow> cell"
  proof -
    obtain x where "f (rows ! j) = Some x" using fj by auto
    then show ?thesis
      using rank_top_missing_lowest [of i "map f rows" j x a] assms fi by simp
  qed
  have bottom: "rank_less (series_rank a na_bottom True (map f rows) ! j)
                          (series_rank a na_bottom True (map f rows) ! i)"
    if fi: "f (rows ! i) = None" and fj: "f (rows ! j) \<noteq> None" for a and f :: "clean_camera \<Rightarrow> cell"
  proof -
    obtain x where "f (rows ! j) = Some x" using fj by auto
    then show ?thesis
      using rank_bottom_missing_highest [of i "map f rows" j x a] assms fi by simp
  qed
  have ap: "Aperture_Value_column rows = map (\<lambda>r. cell_recip (Min_Aperture_F r)) rows"
    by (simp add: Aperture_Value_column_def)
  have c1: "Max_ISO (rows ! i) = None \<and> Max_ISO (rows ! j) \<noteq> None \<longrightarrow>
            rank_less (iso_rank rows ! i) (iso_rank rows ! j)"
    using top [of Max_ISO] by (simp add: iso_rank_def)
  have c2: "Min_Aperture_F (rows ! i) = None \<and> Min_Aperture_F (rows ! j) \<noteq> None \<longrightarrow>
            rank_less (aperture_rank rows ! i) (aperture_rank rows ! j)"
    using top [of "\<lambda>r. cell_recip (Min_Aperture_F r)"]
    by (simp add: aperture_rank_def ap cell_recip_None)
  have c3: "Crop_factor_num (rows ! i) = None \<and> Crop_factor_num (rows ! j) \<noteq> None \<longrightarrow>
            rank_less (crop_rank rows ! i) (crop_rank rows ! j)"
    using top [of Crop_factor_num] by (simp add: crop_rank_def)
  have c4: "Screen_Size_in (rows ! i) = None \<and> Screen_Size_in (rows ! j) \<noteq> None \<longrightarrow>
            rank_less (screen_rank rows ! i) (screen_rank rows ! j)"
    using top [of Screen_Size_in] by (simp add: screen_rank_def)
  have c5: "Max_Shutter_Speed_Sec (rows ! i) = None \<and> Max_Shutter_Speed_Sec (rows ! j) \<noteq> None \<longrightarrow>
            rank_less (shutter_rank rows ! i) (shutter_rank rows ! j)"
    using top [of Max_Shutter_Speed_Sec] by (simp add: shutter_rank_def)
  have c6: "Weight_g (rows ! i) = None \<and> Weight_g (rows ! j) \<noteq> None \<longrightarrow>
            rank_less (weight_rank rows ! j) (weight_rank rows ! i)"
    using bottom [of Weight_g] by (simp add: weight_rank_def)
  have c7: "(Dim_L (rows ! i) = None \<or> Dim_W (rows ! i) = None \<or> Dim_H (rows ! i) = None)
            \<and> inverse_volume (rows ! j) \<noteq> None \<longrightarrow>
            rank_less (volume_rank rows ! j) (volume_rank rows ! i)"
    using bottom [of inverse_volume] inverse_volume_missing [of "rows ! i"]
    by (auto simp: volume_rank_def)
  show ?thesis using c1 c2 c3 c4 c5 c6 c7 by blast
qed

theorem missing_inputs_rank_witness:
  "(1::nat) < length example_clean \<and> (0::nat) < length example_clean
   \<and> Max_ISO (example_clean ! 1) = None \<and> Max_ISO (example_clean ! 0) \<noteq> None
   \<and> rank_less (iso_rank example_clean ! 1) (iso_rank example_clean ! 0)
   \<and> Min_Aperture_F (example_clean ! 1) = None \<and> Min_Aperture_F (example_clean ! 0) \<noteq> None
   \<and> rank_less (aperture_rank example_clean ! 1) (aperture_rank example_clean ! 0)
   \<and> Dim_L (example_clean ! 1) = None \<and> inverse_volume (example_clean ! 0) \<noteq> None
   \<and> rank_less (volume_rank example_clean ! 0) (volume_rank example_clean ! 1)"
proof -
  have l: "(1::nat) < length example_clean" "(0::nat) < length example_clean"
    by (simp_all add: example_clean_length)
  have h: "Max_ISO (example_clean ! 1) = None \<and> Max_ISO (example_clean ! 0) \<noteq> None
     \<and> Min_Aperture_F (example_clean ! 1) = None \<and> Min_Aperture_F (example_clean ! 0) \<noteq> None
     \<and> Dim_L (example_clean ! 1) = None \<and> inverse_volume (example_clean ! 0) \<noteq> None"
    by (simp add: example_clean_def inverse_volume_def cell_mul_def cell_recip_def)
  show ?thesis using l h missing_inputs_rank [OF l] by blast
qed

text \<open>
  C1 as stated fails on the sample batch. The second record misses the ISO value and gets
  the percentile rank 1/2, below the rank 1 of the record that has one. It also misses
  the dimensions and gets the inverse-volume percentile 1, above the 1/2 of the record
  with dimensions, so the missing value earns the larger share of the Portability score.
\<close>

theorem missing_inputs_rank_counterexample:
  "Max_ISO (example_clean ! 1) = None \<and> Max_ISO (example_clean ! 0) \<noteq> None
   \<and> iso_rank example_clean ! 1 = Some (1 / 2) \<and> iso_rank example_clean ! 0 = Some 1
   \<and> Dim_L (example_clean ! 1) = None \<and> Dim_L (example_clean ! 0) \<noteq> None
   \<and> volume_rank example_clean ! 1 = Some 1 \<and> volume_rank example_clean ! 0 = Some (1 / 2)"
  by (simp add: example_ranks) (simp add: example_clean_def)

section \<open>Properties of the scores\<close>

lemma col_scale_defined: "None \<notin> set col \<Longrightarrow> None \<notin> set (col_scale k col)"
  by (auto simp: col_scale_def)

lemma col_add_defined: "None \<notin> set a \<Longrightarrow> None \<notin> set b \<Longrightarrow> None \<notin> set (col_add a b)"
  by (auto simp: col_add_def split: option.splits dest: set_zip_leftD set_zip_rightD)

lemma col_clip_range:
  assumes "None \<notin> set col" "lo \<le> hi" "v \<in> set (col_clip lo hi col)"
  shows "\<exists>q. v = Some q \<and> lo \<le> q \<and> q \<le> hi"
proof -
  obtain w where w: "w \<in> set col" "v = map_option (\<lambda>x. min hi (max lo x)) w"
    using assms(3) by (auto simp: col_clip_def)
  have "w \<noteq> None" using assms(1) w(1) by metis
  then obtain x where "w = Some x" by auto
  then show ?thesis using w assms(2) by auto
qed

lemma length_col_scale: "length (col_scale k col) = length col"
  by (simp add: col_scale_def)

lemma length_col_add: "length (col_add a b) = min (length a) (length b)"
  by (simp add: col_add_def)

lemma length_col_clip: "length (col_clip lo hi col) = length col"
  by (simp add: col_clip_def)

lemmas rank_column_defs = weight_rank_def volume_rank_def iso_rank_def aperture_rank_def
  crop_rank_def screen_rank_def shutter_rank_def

lemma length_score_columns:
  "length (Portability_Score_column rows) = length rows"
  "length (Aperture_Value_column rows) = length rows"
  "length (LowLight_Score_column rows) = length rows"
  "length (Video_Score_column rows) = length rows"
  by (simp_all add: Portability_Score_column_def LowLight_Score_column_def
      Video_Score_column_def Aperture_Value_column_def supports_4k_int_def rank_column_defs
      length_col_clip length_col_scale length_col_add length_series_rank)

lemma score_columns_range:
  "v \<in> set (Portability_Score_column rows) \<Longrightarrow> \<exists>q. v = Some q \<and> 20 \<le> q \<and> q \<le> 100"
  "v \<in> set (LowLight_Score_column rows) \<Longrightarrow> \<exists>q. v = Some q \<and> 20 \<le> q \<and> q \<le> 100"
  "v \<in> set (Video_Score_column rows) \<Longrightarrow> \<exists>q. v = Some q \<and> 20 \<le> q \<and> q \<le> 100"
proof -
  have r: "None \<notin> set (weight_rank rows)" "None \<notin> set (volume_rank rows)"
    "None \<notin> set (iso_rank rows)" "None \<notin> set (aperture_rank rows)"
    "None \<notin> set (crop_rank rows)" "None \<notin> set (screen_rank rows)"
    "None \<notin> set (shutter_rank rows)"
    by (simp_all add: rank_column_defs series_rank_defined)
  have k: "None \<notin> set (supports_4k_int rows)" by (auto simp: supports_4k_int_def)
  have le: "(20::rat) \<le> 100" by simp
  show "\<exists>q. v = Some q \<and> 20 \<le> q \<and> q \<le> 100" if a: "v \<in> set (Portability_Score_column rows)"
  proof -
    have "None \<notin> set (col_scale 100
          (col_add (col_scale (6 / 10) (weight_rank rows))
                   (col_scale (4 / 10) (volume_rank rows))))"
      by (intro col_scale_defined col_add_defined r)
    from col_clip_range [OF this le] a show ?thesis
      unfolding Portability_Score_column_def by blast
  qed
  show "\<exists>q. v = Some q \<and> 20 \<le> q \<and> q \<le> 100" if a: "v \<in> set (LowLight_Score_column rows)"
  proof -
    have "None \<notin> set (col_scale 100
          (col_add (col_add (col_scale (5 / 10) (iso_rank rows))
                            (col_scale (3 / 10) (aperture_rank rows)))
                   (col_scale (2 / 10) (crop_rank rows))))"
      by (intro col_scale_defined col_add_defined r)
    from col_clip_range [OF this le] a show ?thesis
      unfolding LowLight_Score_column_def by blast
  qed
  show "\<exists>q. v = Some q \<and> 20 \<le> q \<and> q \<le> 100" if a: "v \<in> set (Video_Score_column rows)"
  proof -
    have "None \<notin> set (col_scale 100
          (col_add (col_add (col_scale (4 / 10) (supports_4k_int rows))
                            (col_scale (3 / 10) (screen_rank rows)))
                   (col_scale (3 / 10) (shutter_rank rows))))"
      by (intro col_scale_defined col_add_defined r k)
    from col_clip_range [OF this le] a show ?thesis
      unfolding Video_Score_column_def by blast
  qed
qed

lemma derive_scores_row:
  assumes "r \<in> set (derive_scores rows)"
  shows "Portability_Score r \<in> set (Portability_Score_column rows)
       \<and> LowLight_Score r \<in> set (LowLight_Score_column rows)
       \<and> Video_Score r \<in> set (Video_Score_column rows)"
proof -
  obtain i where "i < length rows"
    "r = \<lparr>features = rows ! i,
         Portability_Score = Portability_Score_column rows ! i,
         Aperture_Value = Aperture_Value_column rows ! i,
         LowLight_Score = LowLight_Score_column rows ! i,
         Video_Score = Video_Score_column rows ! i\<rparr>"
    using assms by (auto simp: derive_scores_def)
  then show ?thesis by (simp add: length_score_columns)
qed

lemma clean_and_derive_data:
  "clean_and_derive_features to_numeric df = Inr out \<Longrightarrow>
   \<exists>cleaned. clean_features to_numeric df = Inr cleaned \<and> data out = derive_scores (data cleaned)"
  by (auto simp: clean_and_derive_features_def err_bind_def split: sum.splits)

text \<open>
  C3. Each of the three derived scores of every output row is a number in the closed
  interval from 20 to 100, never a missing value.
\<close>

theorem scores_in_range:
  assumes "clean_and_derive_features to_numeric df = Inr out" and "r \<in> set (data out)"
  shows "(\<exists>p. Portability_Score r = Some p \<and> 20 \<le> p \<and> p \<le> 100)
       \<and> (\<exists>l. LowLight_Score r = Some l \<and> 20 \<le> l \<and> l \<le> 100)
       \<and> (\<exists>v. Video_Score r = Some v \<and> 20 \<le> v \<and> v \<le> 100)"
proof -
  obtain cleaned :: "clean_camera frame" where "data out = derive_scores (data cleaned)"
    using clean_and_derive_data [OF assms(1)] by blast
  then have "r \<in> set (derive_scores (data cleaned))" using assms(2) by simp
  from derive_scores_row [OF this] show ?thesis
    using score_columns_range by blast
qed

theorem scores_in_range_witness:
  "clean_and_derive_features (\<lambda>s. None) example_batch = Inr example_output
   \<and> data example_batch \<noteq> []
   \<and> data example_output ! 0 \<in> set (data example_output)
   \<and> (\<exists>p. Portability_Score (data example_output ! 0) = Some p \<and> 20 \<le> p \<and> p \<le> 100)
   \<and> (\<exists>l. LowLight_Score (data example_output ! 0) = Some l \<and> 20 \<le> l \<and> l \<le> 100)
   \<and> (\<exists>v. Video_Score (data example_output ! 0) = Some v \<and> 20 \<le> v \<and> v \<le> 100)"
proof -
  have m: "data example_output ! 0 \<in> set (data example_output)"
    by (simp add: example_output_def)
  have n: "data example_batch \<noteq> []" by (simp add: example_batch_def)
  show ?thesis using example_run m n scores_in_range [OF example_run m] by blast
qed

section \<open>Properties of the column order and of the row count\<close>

lemma err_bind_Inr_iff: "(err_bind m f = Inr y) = (\<exists>v. m = Inr v \<and> f v = Inr y)"
  by (cases m) (simp_all add: err_bind_def)

lemma set_column_append: "set_column c h = h @ (if c \<in> set h then [] else [c])"
  by (simp add: set_column_def)

lemma foldl_set_column: "\<exists>B. foldl (\<lambda>a c. set_column c a) h cs = h @ B"
proof (induction cs arbitrary: h)
  case Nil
  then show ?case by simp
next
  case (Cons c cs)
  obtain B where "foldl (\<lambda>a c. set_column c a) (set_column c h) cs = set_column c h @ B"
    using Cons.IH by blast
  then show ?case by (simp add: set_column_append)
qed

lemma rename_keeps_aperture:
  "((case map_of renames c of None \<Rightarrow> c | Some c' \<Rightarrow> c') = ''Max aperture'') = (c = ''Max aperture'')"
  by (auto simp: renames_def)

lemma rename_keeps_min_aperture:
  "((case map_of renames c of None \<Rightarrow> c | Some c' \<Rightarrow> c') = ''Min_Aperture_F'') = (c = ''Min_Aperture_F'')"
  by (auto simp: renames_def)

lemma rename_keeps_aperture_sym:
  "(''Max aperture'' = (case map_of renames c of None \<Rightarrow> c | Some c' \<Rightarrow> c')) = (''Max aperture'' = c)"
  "(''Min_Aperture_F'' = (case map_of renames c of None \<Rightarrow> c | Some c' \<Rightarrow> c')) = (''Min_Aperture_F'' = c)"
  using rename_keeps_aperture [of c] rename_keeps_min_aperture [of c] by metis+

lemma rename_columns_aperture:
  "(''Max aperture'' \<in> set (rename_columns h)) = (''Max aperture'' \<in> set h)"
  "(''Min_Aperture_F'' \<in> set (rename_columns h)) = (''Min_Aperture_F'' \<in> set h)"
  "length (takeWhile (\<lambda>c. c \<noteq> ''Max aperture'') (rename_columns h))
     = length (takeWhile (\<lambda>c. c \<noteq> ''Max aperture'') h)"
proof -
  show "(''Max aperture'' \<in> set (rename_columns h)) = (''Max aperture'' \<in> set h)"
    unfolding rename_columns_def by (induction h) (simp_all add: rename_keeps_aperture_sym)
  show "(''Min_Aperture_F'' \<in> set (rename_columns h)) = (''Min_Aperture_F'' \<in> set h)"
    unfolding rename_columns_def by (induction h) (simp_all add: rename_keeps_aperture_sym)
  show "length (takeWhile (\<lambda>c. c \<noteq> ''Max aperture'') (rename_columns h))
     = length (takeWhile (\<lambda>c. c \<noteq> ''Max aperture'') h)"
    unfolding rename_columns_def by (induction h) (simp_all add: rename_keeps_aperture)
qed

lemma rename_columns_snoc:
  "rename_columns (h @ [''Min_Aperture_F'']) = rename_columns h @ [''Min_Aperture_F'']"
  by (simp add: rename_columns_def renames_def)

lemma series_apply_length: "series_apply f xs = Inr ys \<Longrightarrow> length ys = length xs"
  by (induction xs arbitrary: ys) (auto simp: err_bind_Inr_iff)

lemma clean_features_shape:
  assumes "clean_features to_numeric df = Inr cleaned"
  shows "length (data cleaned) = length (data df)
       \<and> ''Max aperture'' \<in> set (columns df)
       \<and> (\<exists>B. columns cleaned
                = rename_columns (set_column ''Min_Aperture_F'' (columns df)) @ B)"
proof -
  obtain B1 where B1: "foldl (\<lambda>a c. set_column c a)
        (rename_columns (set_column ''Min_Aperture_F'' (columns df)))
        [''Dim_L'', ''Dim_W'', ''Dim_H'']
      = rename_columns (set_column ''Min_Aperture_F'' (columns df)) @ B1"
    using foldl_set_column by blast
  have B2: "set_column ''Supports_4K'' (rename_columns (set_column ''Min_Aperture_F'' (columns df)) @ B1)
      = rename_columns (set_column ''Min_Aperture_F'' (columns df))
        @ (B1 @ (if ''Supports_4K'' \<in> set (rename_columns (set_column ''Min_Aperture_F'' (columns df)) @ B1)
                 then [] else [''Supports_4K'']))"
    by (simp add: set_column_append)
  have ma: "''Max aperture'' \<in> set (columns df)"
    using assms unfolding clean_features_def Let_def err_bind_Inr_iff apply_column_def get_column_def
    by (auto split: if_splits)
  have cols: "columns cleaned = set_column ''Supports_4K''
      (foldl (\<lambda>a c. set_column c a)
        (rename_columns (set_column ''Min_Aperture_F'' (columns df)))
        [''Dim_L'', ''Dim_W'', ''Dim_H''])"
    using assms unfolding clean_features_def Let_def err_bind_Inr_iff
    by auto
  have len: "length (data cleaned) = length (data df)"
    using assms unfolding clean_features_def Let_def err_bind_Inr_iff
    by auto
  show ?thesis using ma len cols B1 B2 by metis
qed


lemma length_takeWhile_lt: "x \<in> set xs \<Longrightarrow> \<not> P x \<Longrightarrow> length (takeWhile P xs) < length xs"
  by (induction xs) auto

lemma reorder_columns_adjacent:
  assumes "''Max aperture'' \<in> set A" "''Min_Aperture_F'' \<notin> set A"
    and "reorder_columns (A @ ''Min_Aperture_F'' # B) = Inr cols"
  shows "\<exists>i. i + 1 < length cols \<and> cols ! i = ''Max aperture''
             \<and> cols ! (i + 1) = ''Min_Aperture_F''"
proof -
  define k where "k = length (takeWhile (\<lambda>c. c \<noteq> ''Max aperture'') A)"
  have kA: "k < length A"
    unfolding k_def using assms(1) by (rule length_takeWhile_lt) simp
  have Ak: "A ! k = ''Max aperture''"
    using nth_length_takeWhile [of "\<lambda>c. c \<noteq> ''Max aperture''" A] kA by (simp add: k_def)
  have idx: "index_of ''Max aperture'' (A @ ''Min_Aperture_F'' # B) = Inr k"
    using assms(1) by (simp add: index_of_def k_def)
  have rm: "remove1 ''Min_Aperture_F'' (A @ ''Min_Aperture_F'' # B) = A @ B"
    using assms(2) by (simp add: remove1_append)
  have cols: "cols = take (k + 1) (A @ B) @ ''Min_Aperture_F'' # drop (k + 1) (A @ B)"
    using assms(3) by (simp add: reorder_columns_def idx rm err_bind_def list_insert_def)
  have tk: "take (k + 1) (A @ B) = take (k + 1) A" using kA by simp
  have ltk: "length (take (k + 1) A) = k + 1" using kA by simp
  have c1: "cols ! k = ''Max aperture''"
    using kA Ak by (simp add: cols tk nth_append)
  have c2: "cols ! (k + 1) = ''Min_Aperture_F''"
    unfolding cols tk using ltk by (metis nth_append_length)
  have c3: "k + 1 < length cols" using kA by (simp add: cols)
  show ?thesis using c1 c2 c3 by blast
qed

lemma length_derive_scores: "length (derive_scores rows) = length rows"
  by (simp add: derive_scores_def)

text \<open>
  On a table that has no column \<^verbatim>\<open>Min_Aperture_F\<close> of its own the reorderer does what its
  comment says: the output has as many rows as the input, and \<^verbatim>\<open>Min_Aperture_F\<close> comes
  immediately after \<^verbatim>\<open>Max aperture\<close>.
\<close>

theorem output_rows_and_column_order:
  assumes "clean_and_derive_features to_numeric df = Inr out"
    and "''Min_Aperture_F'' \<notin> set (columns df)"
  shows "length (data out) = length (data df)
       \<and> (\<exists>i. i + 1 < length (columns out) \<and> columns out ! i = ''Max aperture''
                \<and> columns out ! (i + 1) = ''Min_Aperture_F'')"
proof -
  obtain cleaned :: "clean_camera frame" and cols where
    c: "clean_features to_numeric df = Inr cleaned"
    and r: "reorder_columns (foldl (\<lambda>a c. set_column c a) (columns cleaned) score_names) = Inr cols"
    and o: "out = \<lparr>columns = cols, data = derive_scores (data cleaned)\<rparr>"
    using assms(1) unfolding clean_and_derive_features_def err_bind_Inr_iff by auto
  from clean_features_shape [OF c] obtain B where
    len: "length (data cleaned) = length (data df)"
    and ma: "''Max aperture'' \<in> set (columns df)"
    and B: "columns cleaned = rename_columns (set_column ''Min_Aperture_F'' (columns df)) @ B"
    by blast
  obtain B' where B': "foldl (\<lambda>a c. set_column c a) (columns cleaned) score_names
      = columns cleaned @ B'"
    using foldl_set_column by blast
  define A where "A = rename_columns (columns df)"
  have h1: "rename_columns (set_column ''Min_Aperture_F'' (columns df)) = A @ [''Min_Aperture_F'']"
    using assms(2) by (simp add: set_column_def rename_columns_snoc A_def)
  have full: "foldl (\<lambda>a c. set_column c a) (columns cleaned) score_names
      = A @ ''Min_Aperture_F'' # (B @ B')"
    using B' unfolding B h1 by simp
  have A1: "''Max aperture'' \<in> set A" using ma by (simp add: A_def rename_columns_aperture)
  have A2: "''Min_Aperture_F'' \<notin> set A" using assms(2) by (simp add: A_def rename_columns_aperture)
  have "\<exists>i. i + 1 < length cols \<and> cols ! i = ''Max aperture'' \<and> cols ! (i + 1) = ''Min_Aperture_F''"
    using reorder_columns_adjacent [OF A1 A2] r full by simp
  then show ?thesis using o len by (simp add: length_derive_scores)
qed

theorem output_rows_and_column_order_witness:
  "clean_and_derive_features (\<lambda>s. None) example_batch = Inr example_output
   \<and> ''Min_Aperture_F'' \<notin> set (columns example_batch)
   \<and> length (data example_output) = length (data example_batch)
   \<and> (\<exists>i. i + 1 < length (columns example_output) \<and> columns example_output ! i = ''Max aperture''
            \<and> columns example_output ! (i + 1) = ''Min_Aperture_F'')"
proof -
  have h: "''Min_Aperture_F'' \<notin> set (columns example_batch)"
    by (simp add: example_batch_def input_columns_def)
  show ?thesis using example_run h output_rows_and_column_order [OF example_run h] by blast
qed

lemma keyed_clean_run:
  "clean_features (\<lambda>s. None) keyed_batch =
     Inr \<lparr>columns =
        [''Min_Aperture_F'', ''Model'', ''Weight_g'', ''Max_ISO'', ''Min_Shutter_Speed_Sec'',
         ''Max_Shutter_Speed_Sec'', ''Max_Exposure_Comp'',
         ''Screen_Res_Dots'', ''Screen_Size_in'', ''Normal_Focus_cm'',
         ''Macro_Focus_cm'', ''Max aperture'',
         ''Dimensions'', ''Max. video resolution'', ''Total megapixels'',
         ''Effective megapixels'', ''Megapixels'', ''Crop factor'',
         ''Dim_L'', ''Dim_W'', ''Dim_H'', ''Supports_4K''], data = example_clean\<rparr>"
  by (simp add: keyed_batch_def example_batch_def example_clean_def input_columns_def
      blank_camera_def clean_features_def apply_column_def get_column_def
      set_column_def rename_columns_def renames_def supports_4k_def to_numeric_cell_def
      normalizer_defs char_class_defs str_defs
      digit_val_def digits_val_def float_str_def to_cell_def py_reciprocal_def decimal_value_def
      err_bind_Inr err_bind_Inl Let_def
      cong: err_bind_weak_cong)

text \<open>
  C6. For every input batch the output table has as many rows as the input has records,
  and \<^verbatim>\<open>Min_Aperture_F\<close> comes immediately after \<^verbatim>\<open>Max aperture\<close> in the column order;
  the comment of the reorderer says the same. The code breaks the second part on a batch
  whose records carry a key \<^verbatim>\<open>Min_Aperture_F\<close> before \<^verbatim>\<open>Max aperture\<close>: the column is
  overwritten in place, \<^verbatim>\<open>cols.index('Max aperture')\<close> is taken before the column is
  removed, and the insertion lands one place too far, after \<^verbatim>\<open>Dimensions\<close>. The row
  count is kept.
\<close>

theorem min_aperture_column_misplaced:
  "clean_and_derive_features (\<lambda>s. None) keyed_batch
     = Inr (example_output\<lparr>columns := keyed_output_columns\<rparr>)
   \<and> columns keyed_batch ! 0 = ''Min_Aperture_F'' \<and> columns keyed_batch ! 11 = ''Max aperture''
   \<and> keyed_output_columns ! 10 = ''Max aperture''
   \<and> keyed_output_columns ! 11 = ''Dimensions''
   \<and> keyed_output_columns ! 12 = ''Min_Aperture_F''
   \<and> length (data example_output) = length (data keyed_batch)"
proof -
  have run: "clean_and_derive_features (\<lambda>s. None) keyed_batch
     = Inr (example_output\<lparr>columns := keyed_output_columns\<rparr>)"
    unfolding clean_and_derive_features_def keyed_clean_run err_bind_Inr
    by (simp add: derive_scores_def example_scores example_output_def score_names_def
        set_column_def reorder_columns_def index_of_def list_insert_def err_bind_Inr
        example_clean_length numeral_2_eq_2 keyed_output_columns_def)
  have cols: "columns keyed_batch ! 0 = ''Min_Aperture_F'' \<and> columns keyed_batch ! 11 = ''Max aperture''
   \<and> keyed_output_columns ! 10 = ''Max aperture''
   \<and> keyed_output_columns ! 11 = ''Dimensions''
   \<and> keyed_output_columns ! 12 = ''Min_Aperture_F''
   \<and> length (data example_output) = length (data keyed_batch)"
    by (simp add: keyed_batch_def keyed_output_columns_def input_columns_def example_batch_def
        example_output_def)
  show ?thesis using run cols by blast
qed

section \<open>The transform commutes with a reordering of the rows\<close>

lemma permutation_bounds:
  assumes "mset p = mset [0..<n]"
  shows "length p = n" and "\<forall>k\<in>set p. k < n"
proof -
  show "length p = n" using assms by (metis length_upt mset_eq_length minus_nat.diff_0)
  have "set p = set [0..<n]" using assms by (rule mset_eq_setD)
  then show "\<forall>k\<in>set p. k < n" by simp
qed

lemma length_reorder_rows: "length (reorder_rows p xs) = length p"
  by (simp add: reorder_rows_def)

lemma nth_reorder_rows: "i < length p \<Longrightarrow> reorder_rows p xs ! i = xs ! (p ! i)"
  by (simp add: reorder_rows_def)

lemma mset_reorder_rows:
  assumes "mset p = mset [0..<length xs]"
  shows "mset (reorder_rows p xs) = mset xs"
proof -
  have "mset (map (\<lambda>k. xs ! k) p) = image_mset (\<lambda>k. xs ! k) (mset p)" by simp
  also have "\<dots> = image_mset (\<lambda>k. xs ! k) (mset [0..<length xs])" by (simp add: assms)
  also have "\<dots> = mset (map (\<lambda>k. xs ! k) [0..<length xs])" by simp
  also have "\<dots> = mset xs" by (simp add: map_nth)
  finally show ?thesis by (simp add: reorder_rows_def)
qed

lemma map_reorder_rows:
  "\<forall>k\<in>set p. k < length xs \<Longrightarrow> map f (reorder_rows p xs) = reorder_rows p (map f xs)"
  by (simp add: reorder_rows_def)

lemma zip_reorder_rows:
  "\<forall>k\<in>set p. k < length xs \<and> k < length ys \<Longrightarrow>
   zip (reorder_rows p xs) (reorder_rows p ys) = reorder_rows p (zip xs ys)"
  by (induction p) (simp_all add: reorder_rows_def)

lemma assemble_reorder_rows:
  assumes "\<forall>k\<in>set p. k < n"
  shows "reorder_rows p (map G [0..<n]) = map (\<lambda>i. G (p ! i)) [0..<length p]"
proof (rule nth_equalityI)
  show "length (reorder_rows p (map G [0..<n])) = length (map (\<lambda>i. G (p ! i)) [0..<length p])"
    by (simp add: reorder_rows_def)
next
  fix i assume "i < length (reorder_rows p (map G [0..<n]))"
  then have i: "i < length p" by (simp add: reorder_rows_def)
  then have "p ! i < n" using assms by simp
  then show "reorder_rows p (map G [0..<n]) ! i = map (\<lambda>i. G (p ! i)) [0..<length p] ! i"
    using i by (simp add: reorder_rows_def)
qed

lemma filter_length_mset: "mset xs = mset ys \<Longrightarrow> length (filter P xs) = length (filter P ys)"
  by (metis mset_filter size_mset)

lemma average_rank_mset:
  assumes "mset col = mset col'"
  shows "average_rank a na col v = average_rank a na col' v"
    and "ranked_count na col = ranked_count na col'"
proof -
  have l: "length col = length col'" using assms by (rule mset_eq_length)
  have n: "count_na col = count_na col'"
    unfolding count_na_def using assms by (rule filter_length_mset)
  have b: "count_before a col x = count_before a col' x" for x
    unfolding count_before_def using assms by (rule filter_length_mset)
  have t: "count_ties col x = count_ties col' x" for x
    unfolding count_ties_def using assms by (rule filter_length_mset)
  show "average_rank a na col v = average_rank a na col' v"
    by (simp only: average_rank_def l n b t)
  show "ranked_count na col = ranked_count na col'"
    by (simp only: ranked_count_def l n)
qed

lemma series_rank_reorder_rows:
  assumes "mset p = mset [0..<length col]"
  shows "series_rank a na pct (reorder_rows p col) = reorder_rows p (series_rank a na pct col)"
proof -
  have m: "mset (reorder_rows p col) = mset col" using assms by (rule mset_reorder_rows)
  have b: "\<forall>k\<in>set p. k < length col" using assms by (rule permutation_bounds)
  show ?thesis
    unfolding series_rank_def average_rank_mset [OF m]
    using b by (simp add: map_reorder_rows)
qed

lemma col_scale_reorder_rows:
  "\<forall>k\<in>set p. k < length col \<Longrightarrow>
   col_scale c (reorder_rows p col) = reorder_rows p (col_scale c col)"
  by (simp add: col_scale_def map_reorder_rows)

lemma col_clip_reorder_rows:
  "\<forall>k\<in>set p. k < length col \<Longrightarrow>
   col_clip lo hi (reorder_rows p col) = reorder_rows p (col_clip lo hi col)"
  by (simp add: col_clip_def map_reorder_rows)

lemma col_add_reorder_rows:
  "\<forall>k\<in>set p. k < length x \<and> k < length y \<Longrightarrow>
   col_add (reorder_rows p x) (reorder_rows p y) = reorder_rows p (col_add x y)"
  by (simp add: col_add_def zip_reorder_rows map_reorder_rows)

lemma score_columns_reorder_rows:
  assumes "mset p = mset [0..<length rows]"
  shows "Portability_Score_column (reorder_rows p rows) = reorder_rows p (Portability_Score_column rows)"
    and "Aperture_Value_column (reorder_rows p rows) = reorder_rows p (Aperture_Value_column rows)"
    and "LowLight_Score_column (reorder_rows p rows) = reorder_rows p (LowLight_Score_column rows)"
    and "Video_Score_column (reorder_rows p rows) = reorder_rows p (Video_Score_column rows)"
proof -
  have b: "\<forall>k\<in>set p. k < length rows" using assms by (rule permutation_bounds)
  have m: "mset p = mset [0..<length (map f rows)]" for f :: "clean_camera \<Rightarrow> cell"
    using assms by simp
  have mp: "map f (reorder_rows p rows) = reorder_rows p (map f rows)" for f :: "clean_camera \<Rightarrow> 'b"
    using b by (rule map_reorder_rows)
  have ap: "Aperture_Value_column (reorder_rows p rows) = reorder_rows p (Aperture_Value_column rows)"
    by (simp add: Aperture_Value_column_def mp)
  have ranks:
    "weight_rank (reorder_rows p rows) = reorder_rows p (weight_rank rows)"
    "volume_rank (reorder_rows p rows) = reorder_rows p (volume_rank rows)"
    "iso_rank (reorder_rows p rows) = reorder_rows p (iso_rank rows)"
    "aperture_rank (reorder_rows p rows) = reorder_rows p (aperture_rank rows)"
    "crop_rank (reorder_rows p rows) = reorder_rows p (crop_rank rows)"
    "screen_rank (reorder_rows p rows) = reorder_rows p (screen_rank rows)"
    "shutter_rank (reorder_rows p rows) = reorder_rows p (shutter_rank rows)"
    unfolding rank_column_defs ap mp Aperture_Value_column_def
    by (simp_all only: series_rank_reorder_rows [OF m])
  have k4: "supports_4k_int (reorder_rows p rows) = reorder_rows p (supports_4k_int rows)"
    by (simp add: supports_4k_int_def mp)
  have lens: "\<forall>k\<in>set p. k < length (weight_rank rows)" "\<forall>k\<in>set p. k < length (volume_rank rows)"
    "\<forall>k\<in>set p. k < length (iso_rank rows)" "\<forall>k\<in>set p. k < length (aperture_rank rows)"
    "\<forall>k\<in>set p. k < length (crop_rank rows)" "\<forall>k\<in>set p. k < length (screen_rank rows)"
    "\<forall>k\<in>set p. k < length (shutter_rank rows)" "\<forall>k\<in>set p. k < length (supports_4k_int rows)"
    using b by (simp_all add: rank_column_defs length_series_rank Aperture_Value_column_def
        supports_4k_int_def)
  show "Aperture_Value_column (reorder_rows p rows) = reorder_rows p (Aperture_Value_column rows)"
    by (rule ap)
  show "Portability_Score_column (reorder_rows p rows) = reorder_rows p (Portability_Score_column rows)"
    unfolding Portability_Score_column_def ranks using lens
    by (simp add: col_scale_reorder_rows col_add_reorder_rows col_clip_reorder_rows
        length_col_scale length_col_add)
  show "LowLight_Score_column (reorder_rows p rows) = reorder_rows p (LowLight_Score_column rows)"
    unfolding LowLight_Score_column_def ranks using lens
    by (simp add: col_scale_reorder_rows col_add_reorder_rows col_clip_reorder_rows
        length_col_scale length_col_add)
  show "Video_Score_column (reorder_rows p rows) = reorder_rows p (Video_Score_column rows)"
    unfolding Video_Score_column_def ranks k4 using lens
    by (simp add: col_scale_reorder_rows col_add_reorder_rows col_clip_reorder_rows
        length_col_scale length_col_add)
qed

lemma derive_scores_reorder_rows:
  assumes "mset p = mset [0..<length rows]"
  shows "derive_scores (reorder_rows p rows) = reorder_rows p (derive_scores rows)"
proof -
  have b: "\<forall>k\<in>set p. k < length rows" using assms by (rule permutation_bounds)
  have lp: "length p = length rows" using assms by (rule permutation_bounds)
  show ?thesis
    unfolding derive_scores_def score_columns_reorder_rows [OF assms]
      assemble_reorder_rows [OF b] length_reorder_rows
    by (rule map_cong) (simp_all add: nth_reorder_rows)
qed

lemma floats_error: "floats ts = Inl e \<Longrightarrow> e = ValueError"
proof (induction ts arbitrary: e)
  case Nil
  then show ?case by simp
next
  case (Cons t ts)
  show ?case
  proof (cases "float_str t")
    case (Inl e')
    then show ?thesis using Cons.prems float_str_error by (simp add: err_bind_def)
  next
    case (Inr v)
    then show ?thesis using Cons by (cases "floats ts") (simp_all add: err_bind_def)
  qed
qed

lemma to_cell_error: "to_cell (float_str g) = Inl e \<Longrightarrow> e = ValueError"
  using float_str_error [of g e] by (cases "float_str g") (simp_all add: to_cell_def err_bind_def)

lemma normalizer_errors:
  "clean_weight x = Inl e \<Longrightarrow> e = ValueError"
  "clean_max_iso x = Inl e \<Longrightarrow> e = ValueError"
  "clean_shutter_speed x = Inl e \<Longrightarrow> e = ValueError"
  "clean_exposure_range x = Inl e \<Longrightarrow> e = ValueError"
  "clean_screen_res x = Inl e \<Longrightarrow> e = ValueError"
  "clean_screen_size to_numeric x = Inl e \<Longrightarrow> e = ValueError"
  "clean_focus_range x = Inl e \<Longrightarrow> e = ValueError"
  "clean_aperture_f x = Inl e \<Longrightarrow> e = ValueError"
  "clean_dimensions x = Inl e \<Longrightarrow> e = ValueError"
proof -
  show "clean_weight x = Inl e \<Longrightarrow> e = ValueError"
    by (auto simp: clean_weight_def split: option.splits dest: to_cell_error)
  show "clean_max_iso x = Inl e \<Longrightarrow> e = ValueError"
    by (auto simp: clean_max_iso_def Let_def split: option.splits if_splits dest: to_cell_error)
  show "clean_shutter_speed x = Inl e \<Longrightarrow> e = ValueError"
    by (auto simp: clean_shutter_speed_def Let_def split: option.splits if_splits sum.splits
        dest: to_cell_error simp del: contains.simps)
  show "clean_exposure_range x = Inl e \<Longrightarrow> e = ValueError"
    by (auto simp: clean_exposure_range_def split: option.splits dest: to_cell_error)
  show "clean_screen_res x = Inl e \<Longrightarrow> e = ValueError"
    by (auto simp: clean_screen_res_def split: option.splits list.splits dest: to_cell_error)
  show "clean_screen_size to_numeric x = Inl e \<Longrightarrow> e = ValueError"
    by (auto simp: clean_screen_size_def split: option.splits)
  show "clean_focus_range x = Inl e \<Longrightarrow> e = ValueError"
    by (auto simp: clean_focus_range_def Let_def err_bind_def
        split: option.splits sum.splits dest: to_cell_error float_str_error)
  show "clean_aperture_f x = Inl e \<Longrightarrow> e = ValueError"
    by (auto simp: clean_aperture_f_def err_bind_def
        split: option.splits sum.splits if_splits dest: floats_error)
  show "clean_dimensions x = Inl e \<Longrightarrow> e = ValueError"
    by (auto simp: clean_dimensions_def err_bind_def
        split: option.splits sum.splits if_splits dest: floats_error)
qed

lemma series_apply_Inr:
  "(series_apply f xs = Inr ys) = list_all2 (\<lambda>x y. f x = Inr y) xs ys"
proof (induction xs arbitrary: ys)
  case Nil
  then show ?case by auto
next
  case (Cons x xs)
  show ?case
  proof (cases "f x")
    case (Inl e)
    then show ?thesis by (auto simp: err_bind_def list_all2_Cons1)
  next
    case (Inr y)
    then show ?thesis using Cons [symmetric]
      by (cases "series_apply f xs") (auto simp: err_bind_def list_all2_Cons1)
  qed
qed

lemma series_apply_Inl: "series_apply f xs = Inl e \<Longrightarrow> \<exists>x\<in>set xs. f x = Inl e"
proof (induction xs)
  case Nil
  then show ?case by simp
next
  case (Cons x xs)
  then show ?case
    by (cases "f x"; cases "series_apply f xs") (auto simp: err_bind_def)
qed

lemma series_apply_reorder_rows:
  assumes "\<And>x e. f x = Inl e \<Longrightarrow> e = ValueError"
    and "mset p = mset [0..<length xs]"
  shows "series_apply f (reorder_rows p xs)
         = (case series_apply f xs of Inl e \<Rightarrow> Inl e | Inr ys \<Rightarrow> Inr (reorder_rows p ys))"
proof (cases "series_apply f xs")
  case (Inr ys)
  then have l: "list_all2 (\<lambda>x y. f x = Inr y) xs ys" by (simp add: series_apply_Inr)
  have b: "\<forall>k\<in>set p. k < length xs" using assms(2) by (rule permutation_bounds)
  have "list_all2 (\<lambda>x y. f x = Inr y) (reorder_rows p xs) (reorder_rows p ys)"
    unfolding list_all2_conv_all_nth
  proof (intro conjI allI impI)
    show "length (reorder_rows p xs) = length (reorder_rows p ys)"
      by (simp add: length_reorder_rows)
    fix i assume "i < length (reorder_rows p xs)"
    then have i: "i < length p" by (simp add: length_reorder_rows)
    then have "p ! i < length xs" using b by simp
    then have "f (xs ! (p ! i)) = Inr (ys ! (p ! i))" using l by (simp add: list_all2_conv_all_nth)
    then show "f (reorder_rows p xs ! i) = Inr (reorder_rows p ys ! i)"
      using i by (simp add: nth_reorder_rows)
  qed
  then have "series_apply f (reorder_rows p xs) = Inr (reorder_rows p ys)"
    by (simp only: series_apply_Inr)
  then show ?thesis by (simp only: Inr sum.case)
next
  case (Inl e)
  then obtain x where x: "x \<in> set xs" "f x = Inl e" using series_apply_Inl by blast
  have e: "e = ValueError" using assms(1) x(2) by blast
  have "set (reorder_rows p xs) = set xs"
    using mset_reorder_rows [OF assms(2)] by (rule mset_eq_setD)
  then have xin: "x \<in> set (reorder_rows p xs)" using x(1) by simp
  have "\<not> list_all2 (\<lambda>x y. f x = Inr y) (reorder_rows p xs) ys" for ys
  proof
    assume a: "list_all2 (\<lambda>x y. f x = Inr y) (reorder_rows p xs) ys"
    obtain i where i: "i < length (reorder_rows p xs)" "reorder_rows p xs ! i = x"
      using xin by (auto simp: in_set_conv_nth)
    have "f (reorder_rows p xs ! i) = Inr (ys ! i)"
      using a i(1) by (simp add: list_all2_conv_all_nth)
    then show False using i(2) x(2) by simp
  qed
  then obtain e' where e': "series_apply f (reorder_rows p xs) = Inl e'"
    by (cases "series_apply f (reorder_rows p xs)") (simp_all add: series_apply_Inr)
  then obtain x' where "f x' = Inl e'" using series_apply_Inl by blast
  then have "e' = ValueError" using assms(1) by blast
  then show ?thesis using Inl e e' by simp
qed

lemma err_bind_assoc: "err_bind (err_bind m f) g = err_bind m (\<lambda>v. err_bind (f v) g)"
  by (cases m) (simp_all add: err_bind_def)

lemma err_bind_cong: "(\<And>v. m = Inr v \<Longrightarrow> f v = g v) \<Longrightarrow> err_bind m f = err_bind m g"
  by (cases m) (simp_all add: err_bind_def)

lemma get_column_reorder_rows:
  "get_column h name (reorder_rows p col)
   = err_bind (get_column h name col) (\<lambda>ys. Inr (reorder_rows p ys))"
  by (simp add: get_column_def err_bind_def)

lemma apply_column_reorder_rows:
  assumes "\<And>x e. f x = Inl e \<Longrightarrow> e = ValueError"
    and "mset p = mset [0..<n]" and "length col = n"
  shows "apply_column h name f (reorder_rows p col)
         = err_bind (apply_column h name f col) (\<lambda>ys. Inr (reorder_rows p ys))"
proof -
  have m: "mset p = mset [0..<length col]" using assms(2,3) by simp
  show ?thesis
    unfolding apply_column_def get_column_def
    using series_apply_reorder_rows [of f p col, OF assms(1) m]
    by (cases "series_apply f col") (simp_all add: err_bind_def)
qed

lemma clean_features_reorder_rows:
  assumes "mset p = mset [0..<length (data df)]"
  shows "clean_features to_numeric (df\<lparr>data := reorder_rows p (data df)\<rparr>)
         = err_bind (clean_features to_numeric df)
             (\<lambda>d. Inr (d\<lparr>data := reorder_rows p (data d)\<rparr>))"
proof -
  have b: "\<forall>k\<in>set p. k < length (data df)" using assms by (rule permutation_bounds)
  have mp: "map f (reorder_rows p (data df)) = reorder_rows p (map f (data df))"
    for f :: "raw_camera \<Rightarrow> string option"
    using b by (rule map_reorder_rows)
  note ac = apply_column_reorder_rows [OF normalizer_errors(1) assms]
    apply_column_reorder_rows [OF normalizer_errors(2) assms]
    apply_column_reorder_rows [OF normalizer_errors(3) assms]
    apply_column_reorder_rows [OF normalizer_errors(4) assms]
    apply_column_reorder_rows [OF normalizer_errors(5) assms]
    apply_column_reorder_rows [OF normalizer_errors(6) assms]
    apply_column_reorder_rows [OF normalizer_errors(7) assms]
    apply_column_reorder_rows [OF normalizer_errors(8) assms]
    apply_column_reorder_rows [OF normalizer_errors(9) assms]
  show ?thesis
    unfolding clean_features_def Let_def
    using b
    apply (simp add: mp ac get_column_reorder_rows err_bind_assoc err_bind_Inr
        assemble_reorder_rows length_reorder_rows)
    apply (intro err_bind_cong)
    apply (simp add: nth_reorder_rows cong: map_cong)
    done
qed

text \<open>
  C4. The transform is a function of its input table, so running it twice on the same
  batch gives the same scores. Reordering the input rows reorders the output rows in the
  same way and changes nothing else: every record keeps its three scores, and a batch that
  makes the transform raise does so in every order.
\<close>

theorem scores_independent_of_row_order:
  assumes "mset p = mset [0..<length (data df)]"
  shows "clean_and_derive_features to_numeric (df\<lparr>data := reorder_rows p (data df)\<rparr>)
         = (case clean_and_derive_features to_numeric df of
              Inl e \<Rightarrow> Inl e
            | Inr out \<Rightarrow> Inr (out\<lparr>data := reorder_rows p (data out)\<rparr>))"
proof (cases "clean_features to_numeric df")
  case (Inl e)
  then show ?thesis
    by (simp add: clean_and_derive_features_def clean_features_reorder_rows [OF assms]
        err_bind_Inl)
next
  case (Inr cleaned)
  have "length (data cleaned) = length (data df)"
    using clean_features_shape [OF Inr] by blast
  then have m: "mset p = mset [0..<length (data cleaned)]" using assms by simp
  show ?thesis
    unfolding clean_and_derive_features_def clean_features_reorder_rows [OF assms] Inr
    by (cases "reorder_columns (foldl (\<lambda>a c. set_column c a) (columns cleaned) score_names)")
       (simp_all add: err_bind_Inr err_bind_Inl derive_scores_reorder_rows [OF m])
qed

theorem scores_independent_of_row_order_witness:
  "mset [1, 0] = mset [0..<length (data example_batch)]
   \<and> clean_and_derive_features (\<lambda>s. None)
        (example_batch\<lparr>data := reorder_rows [1, 0] (data example_batch)\<rparr>)
      = Inr (example_output\<lparr>data := reorder_rows [1, 0] (data example_output)\<rparr>)"
proof -
  have h: "mset [1, 0] = mset [0..<length (data example_batch)]"
    by (simp add: example_batch_def numeral_2_eq_2)
  show ?thesis
    using h scores_independent_of_row_order [OF h, of "\<lambda>s. None"]
    by (simp add: example_run)
qed

section \<open>Further checks of the model\<close>

text \<open>
  The example of the pandas documentation of \<^verbatim>\<open>rank\<close>: the values 4, 2, 4, 8 and a
  missing one get the default ranks 2.5, 1, 2.5, 4 and NaN, with \<^verbatim>\<open>na_option='bottom'\<close>
  the last rank is 5, and the percentile ranks are 0.625, 0.25, 0.625, 1 and NaN.
\<close>

lemma series_rank_documented_example:
  "series_rank True na_keep False [Some (4::int), Some 2, Some 4, Some 8, None]
     = [Some (5 / 2), Some 1, Some (5 / 2), Some 4, None]"
  "series_rank True na_bottom False [Some (4::int), Some 2, Some 4, Some 8, None]
     = [Some (5 / 2), Some 1, Some (5 / 2), Some 4, Some 5]"
  "series_rank True na_keep True [Some (4::int), Some 2, Some 4, Some 8, None]
     = [Some (5 / 8), Some (1 / 4), Some (5 / 8), Some 1, None]"
  by (simp_all add: series_rank_def average_rank_def ranked_count_def count_na_def
      count_before_def count_ties_def)

text \<open>
  The normalizers that hand only digit runs, or the tokens of the strict pattern, to
  \<^verbatim>\<open>float\<close> never raise; neither does the one that leaves the conversion to
  \<^verbatim>\<open>pd.to_numeric\<close>.
\<close>

lemma normalizers_that_never_raise:
  "\<exists>v. clean_max_iso x = Inr v"
  "\<exists>v. clean_screen_res x = Inr v"
  "\<exists>v. clean_screen_size to_numeric x = Inr v"
  "\<exists>v. clean_dimensions x = Inr v"
proof -
  show "\<exists>v. clean_max_iso x = Inr v"
  proof (cases x)
    case None
    then show ?thesis by (simp add: clean_max_iso_def)
  next
    case (Some i)
    define numbers where "numbers = findall_digits (str_strip (remove_char (CHR '','') i))"
    show ?thesis
    proof (cases "numbers = []")
      case True
      then show ?thesis using Some by (simp add: clean_max_iso_def numbers_def)
    next
      case False
      then have "last numbers \<in> set numbers" by simp
      then have "float_str (last numbers) = Inr (Fin (of_nat (digits_val (last numbers))))"
        unfolding numbers_def by (rule findall_digits_float)
      then show ?thesis using Some False
        by (simp add: clean_max_iso_def numbers_def [symmetric] to_cell_def err_bind_def)
    qed
  qed
  show "\<exists>v. clean_screen_res x = Inr v"
  proof (cases x)
    case None
    then show ?thesis by (simp add: clean_screen_res_def)
  next
    case (Some r)
    show ?thesis
    proof (cases "findall_digits (str_lower (remove_char (CHR '','') r))")
      case Nil
      then show ?thesis using Some by (simp add: clean_screen_res_def)
    next
      case (Cons g gs)
      then have "g \<in> set (findall_digits (str_lower (remove_char (CHR '','') r)))" by simp
      then have "float_str g = Inr (Fin (of_nat (digits_val g)))" by (rule findall_digits_float)
      then show ?thesis using Some Cons
        by (simp add: clean_screen_res_def to_cell_def err_bind_def)
    qed
  qed
  show "\<exists>v. clean_screen_size to_numeric x = Inr v"
    by (cases x) (simp_all add: clean_screen_size_def)
  show "\<exists>v. clean_dimensions x = Inr v"
    by (cases x) (simp_all add: clean_dimensions_def floats_findall_decimal err_bind_def)
qed

end
